theory Spec2Isabelle
  imports Main "HOL-Library.Sublist"
begin

section \<open>Python strings\<close>

text \<open>
  The migration script \<^verbatim>\<open>scripts/migrate-frontmatter.py\<close> works on Python \<^verbatim>\<open>str\<close>
  values. A \<^typ>\<open>string\<close> stands for a \<^verbatim>\<open>str\<close> whose code points lie in
  U+0000..U+00FF; a \<^typ>\<open>char\<close> is one such code point. The operations below are the
  \<^verbatim>\<open>str\<close> methods the script calls, with the names they have in Python.
\<close>

definition whitespace :: "char list" where
  "whitespace = [CHR 0x09, CHR 0x0A, CHR 0x0B, CHR 0x0C, CHR 0x0D, CHR 0x1C, CHR 0x1D,
     CHR 0x1E, CHR 0x1F, CHR 0x20, CHR 0x85, CHR 0xA0]"

definition isspace :: "char \<Rightarrow> bool" where
  "isspace c = (c \<in> set whitespace)"

definition str_lstrip :: "string \<Rightarrow> string" where
  "str_lstrip s = dropWhile isspace s"

definition str_rstrip :: "string \<Rightarrow> string" where
  "str_rstrip s = rev (dropWhile isspace (rev s))"

definition str_strip :: "string \<Rightarrow> string" where
  "str_strip s = str_rstrip (str_lstrip s)"

definition str_lstrip_chars :: "string \<Rightarrow> string \<Rightarrow> string" where
  "str_lstrip_chars chars s = dropWhile (\<lambda>c. c \<in> set chars) s"

definition str_startswith :: "string \<Rightarrow> string \<Rightarrow> bool" where
  "str_startswith s p = prefix p s"

definition str_in :: "string \<Rightarrow> string \<Rightarrow> bool" where
  "str_in sub s = sublist sub s"

text \<open>
  \<open>str_find sep s\<close> cuts \<open>s\<close> at the first (leftmost) occurrence of \<open>sep\<close>: the text
  before it and the text after it. It is what \<^verbatim>\<open>partition\<close> and \<^verbatim>\<open>split\<close> share.
\<close>

fun str_find :: "string \<Rightarrow> string \<Rightarrow> (string \<times> string) option" where
  "str_find sep [] = (if sep = [] then Some ([], []) else None)"
| "str_find sep (c # cs) =
     (if prefix sep (c # cs) then Some ([], drop (length sep) (c # cs))
      else map_option (\<lambda>(a, b). (c # a, b)) (str_find sep cs))"

definition str_partition :: "string \<Rightarrow> string \<Rightarrow> string \<times> string \<times> string" where
  "str_partition s sep =
     (case str_find sep s of None \<Rightarrow> (s, [], []) | Some (a, b) \<Rightarrow> (a, sep, b))"

text \<open>\<^verbatim>\<open>s.split(sep, maxsplit)\<close>: at most \<open>maxsplit\<close> cuts, left to right.\<close>

fun str_split_max :: "string \<Rightarrow> string \<Rightarrow> nat \<Rightarrow> string list" where
  "str_split_max s sep 0 = [s]"
| "str_split_max s sep (Suc n) =
     (case str_find sep s of
        None \<Rightarrow> [s]
      | Some (a, b) \<Rightarrow> a # str_split_max b sep n)"

text \<open>
  \<^verbatim>\<open>s.split(sep)\<close> for a one-character separator (the script only splits lines at
  the newline character without a limit).
\<close>

fun str_split_char :: "string \<Rightarrow> char \<Rightarrow> string list" where
  "str_split_char [] c = [[]]"
| "str_split_char (x # xs) c =
     (if x = c then [] # str_split_char xs c
      else (case str_split_char xs c of
              [] \<Rightarrow> [[x]]
            | l # ls \<Rightarrow> (x # l) # ls))"

definition newline :: char where
  "newline = CHR 0x0A"

definition split_lines :: "string \<Rightarrow> string list" where
  "split_lines s = str_split_char s newline"

fun str_join :: "string \<Rightarrow> string list \<Rightarrow> string" where
  "str_join sep [] = []"
| "str_join sep [x] = x"
| "str_join sep (x # y # ys) = x @ sep @ str_join sep (y # ys)"

definition join_lines :: "string list \<Rightarrow> string" where
  "join_lines ls = str_join [newline] ls"

definition char_lower :: "char \<Rightarrow> char" where
  "char_lower c =
     (let n = (of_char c :: nat)
      in if (65 \<le> n \<and> n \<le> 90) \<or> (192 \<le> n \<and> n \<le> 222 \<and> n \<noteq> 215)
         then char_of (n + 32) else c)"

definition str_lower :: "string \<Rightarrow> string" where
  "str_lower s = map char_lower s"

definition str_replace_char :: "string \<Rightarrow> char \<Rightarrow> char \<Rightarrow> string" where
  "str_replace_char s a b = map (\<lambda>c. if c = a then b else c) s"

subsection \<open>\<^verbatim>\<open>repr\<close> and \<^verbatim>\<open>str\<close> of the values a header holds\<close>

definition hexdigit :: "nat \<Rightarrow> char" where
  "hexdigit n = ''0123456789abcdef'' ! (n mod 16)"

definition backslash :: char where
  "backslash = CHR 0x5C"

definition isprintable :: "char \<Rightarrow> bool" where
  "isprintable c =
     (let n = (of_char c :: nat)
      in (32 \<le> n \<and> n < 127) \<or> (161 \<le> n \<and> n \<noteq> 173))"

definition repr_char :: "char \<Rightarrow> char \<Rightarrow> string" where
  "repr_char quote c =
     (if c = quote \<or> c = backslash then [backslash, c]
      else if c = CHR 0x09 then [backslash, CHR ''t'']
      else if c = CHR 0x0A then [backslash, CHR ''n'']
      else if c = CHR 0x0D then [backslash, CHR ''r'']
      else if isprintable c then [c]
      else [backslash, CHR ''x'', hexdigit (of_char c div 16), hexdigit (of_char c mod 16)])"

definition py_repr :: "string \<Rightarrow> string" where
  "py_repr s =
     (let quote = (if CHR 0x27 \<in> set s \<and> CHR 0x22 \<notin> set s then CHR 0x22 else CHR 0x27)
      in [quote] @ concat (map (repr_char quote) s) @ [quote])"

text \<open>
  A header value, as the data model has it: a scalar string, a sequence of strings, or
  (for the \<^verbatim>\<open>metadata\<close> group of a migrated header read by the structured reader) a nested
  mapping of scalar strings.
\<close>

datatype pyval = Str string | Seq "string list" | Dict "(string \<times> string) list"

type_synonym fields = "string \<rightharpoonup> pyval"

text \<open>\<^verbatim>\<open>str(v)\<close>, which an f-string applies to the value it formats.\<close>

fun py_str :: "pyval \<Rightarrow> string" where
  "py_str (Str s) = s"
| "py_str (Seq xs) = ''['' @ str_join '', '' (map py_repr xs) @ '']''"
| "py_str (Dict kvs) =
     ''{'' @ str_join '', '' (map (\<lambda>(k, v). py_repr k @ '': '' @ py_repr v) kvs) @ ''}''"

text \<open>\<^verbatim>\<open>x in v\<close>: a substring of a string, an element of a list, a key of a mapping.\<close>

fun py_in :: "string \<Rightarrow> pyval \<Rightarrow> bool" where
  "py_in x (Str s) = str_in x s"
| "py_in x (Seq xs) = (x \<in> set xs)"
| "py_in x (Dict kvs) = (x \<in> fst ` set kvs)"

section \<open>The header parser\<close>

text \<open>
  \<^verbatim>\<open>yaml.safe_load\<close> belongs to PyYAML, not to this repository: it is a parameter of the
  model. \<open>None\<close> is \<^verbatim>\<open>HAS_PYYAML = False\<close> (the import failed), \<open>Some load\<close> is the
  structured reader, which either raises or returns the mapping it read
  (\<^verbatim>\<open>yaml.safe_load(yaml_str) or {}\<close>).
\<close>

datatype error = YAMLError | KeyError string

type_synonym yaml_loader = "string \<Rightarrow> error + fields"

record parser_state =
  frontmatter :: fields
  current_key :: "string option"
  current_list :: "string list option"

text \<open>
  \<^verbatim>\<open>if current_key and current_list is not None: frontmatter[current_key] = current_list\<close>
\<close>

definition flush :: "parser_state \<Rightarrow> fields" where
  "flush st =
     (case (current_key st, current_list st) of
        (Some k, Some l) \<Rightarrow> if k \<noteq> [] then (frontmatter st)(k \<mapsto> Seq l) else frontmatter st
      | _ \<Rightarrow> frontmatter st)"

definition parse_line :: "parser_state \<Rightarrow> string \<Rightarrow> parser_state" where
  "parse_line st line =
     (if str_strip line = [] then st
      else if str_startswith line ''  - '' \<or> str_startswith line ''    - '' then
        (case (current_key st, current_list st) of
           (Some k, Some l) \<Rightarrow>
             if k \<noteq> [] then
               st\<lparr>current_list := Some (l @ [str_strip (str_lstrip_chars ''- '' (str_strip line))])\<rparr>
             else st
         | _ \<Rightarrow> st)
      else if str_in '':'' line \<and> \<not> str_startswith line '' '' then
        (let fm = flush st;
             (key, _, val) = str_partition line '':'';
             key = str_strip key;
             val = str_strip val
         in if val = [] then
              \<lparr>frontmatter = fm, current_key = Some key, current_list = Some []\<rparr>
            else
              \<lparr>frontmatter = fm(key \<mapsto> Str val), current_key = None, current_list = None\<rparr>)
      else st)"

fun parse_lines :: "parser_state \<Rightarrow> string list \<Rightarrow> parser_state" where
  "parse_lines st [] = st"
| "parse_lines st (line # rest) = parse_lines (parse_line st line) rest"

definition simple_parser :: "string \<Rightarrow> fields" where
  "simple_parser yaml_str =
     flush (parse_lines \<lparr>frontmatter = Map.empty, current_key = None, current_list = None\<rparr>
              (split_lines (str_strip yaml_str)))"

text \<open>
  \<open>parse_frontmatter\<close> returns \<^verbatim>\<open>(None, content)\<close> when there is no header, and the
  fields with the body otherwise; an exception of the structured reader passes through.
\<close>

definition parse_frontmatter ::
  "yaml_loader option \<Rightarrow> string \<Rightarrow> error + (fields option \<times> string)" where
  "parse_frontmatter HAS_PYYAML content =
     (if \<not> str_startswith content ''---'' then Inr (None, content)
      else (case str_split_max content ''---'' 2 of
              p0 # yaml_str # body # _ \<Rightarrow>
                (case HAS_PYYAML of
                   Some safe_load \<Rightarrow>
                     (case safe_load yaml_str of
                        Inl e \<Rightarrow> Inl e
                      | Inr fm \<Rightarrow> Inr (Some fm, body))
                 | None \<Rightarrow> Inr (Some (simple_parser yaml_str), body))
            | _ \<Rightarrow> Inr (None, content)))"

section \<open>The domain table\<close>

definition SKILL_DOMAIN_MAP :: "string \<rightharpoonup> string" where
  "SKILL_DOMAIN_MAP = map_of
    [(''python-pro'', ''language''),
     (''typescript-pro'', ''language''),
     (''javascript-pro'', ''language''),
     (''golang-pro'', ''language''),
     (''rust-engineer'', ''language''),
     (''sql-pro'', ''language''),
     (''cpp-pro'', ''language''),
     (''swift-expert'', ''language''),
     (''kotlin-specialist'', ''language''),
     (''csharp-developer'', ''language''),
     (''php-pro'', ''language''),
     (''java-architect'', ''language''),
     (''nestjs-expert'', ''backend''),
     (''django-expert'', ''backend''),
     (''fastapi-expert'', ''backend''),
     (''spring-boot-engineer'', ''backend''),
     (''laravel-specialist'', ''backend''),
     (''rails-expert'', ''backend''),
     (''dotnet-core-expert'', ''backend''),
     (''react-expert'', ''frontend''),
     (''nextjs-developer'', ''frontend''),
     (''vue-expert'', ''frontend''),
     (''vue-expert-js'', ''frontend''),
     (''angular-architect'', ''frontend''),
     (''react-native-expert'', ''frontend''),
     (''flutter-expert'', ''frontend''),
     (''kubernetes-specialist'', ''infrastructure''),
     (''terraform-engineer'', ''infrastructure''),
     (''postgres-pro'', ''infrastructure''),
     (''cloud-architect'', ''infrastructure''),
     (''database-optimizer'', ''infrastructure''),
     (''graphql-architect'', ''api-architecture''),
     (''api-designer'', ''api-architecture''),
     (''websocket-engineer'', ''api-architecture''),
     (''microservices-architect'', ''api-architecture''),
     (''mcp-developer'', ''api-architecture''),
     (''architecture-designer'', ''api-architecture''),
     (''test-master'', ''quality''),
     (''playwright-expert'', ''quality''),
     (''code-reviewer'', ''quality''),
     (''code-documenter'', ''quality''),
     (''debugging-wizard'', ''quality''),
     (''devops-engineer'', ''devops''),
     (''monitoring-expert'', ''devops''),
     (''sre-engineer'', ''devops''),
     (''chaos-engineer'', ''devops''),
     (''cli-developer'', ''devops''),
     (''secure-code-guardian'', ''security''),
     (''security-reviewer'', ''security''),
     (''fullstack-guardian'', ''security''),
     (''pandas-pro'', ''data-ml''),
     (''spark-engineer'', ''data-ml''),
     (''ml-pipeline'', ''data-ml''),
     (''prompt-engineer'', ''data-ml''),
     (''rag-architect'', ''data-ml''),
     (''fine-tuning-expert'', ''data-ml''),
     (''salesforce-developer'', ''platform''),
     (''shopify-expert'', ''platform''),
     (''wordpress-pro'', ''platform''),
     (''atlassian-mcp'', ''platform''),
     (''legacy-modernizer'', ''specialized''),
     (''embedded-systems'', ''specialized''),
     (''game-developer'', ''specialized''),
     (''feature-forge'', ''workflow''),
     (''spec-miner'', ''workflow'')]"

section \<open>The header builder\<close>

definition special_chars :: string where
  "special_chars = '':#{}[]|>&*!%@`''"

text \<open>
  \<open>build_lines\<close> is the list \<^verbatim>\<open>lines\<close> of \<^verbatim>\<open>build_new_frontmatter\<close> when it is joined:
  every \<^verbatim>\<open>lines.append\<close> of the source is one step below. \<^verbatim>\<open>fm['name']\<close> and
  \<^verbatim>\<open>fm["description"]\<close> raise \<^verbatim>\<open>KeyError\<close> on a missing key.
\<close>

definition build_lines :: "fields \<Rightarrow> string \<Rightarrow> error + string list" where
  \<open>build_lines fm skill_name =
     (case fm ''name'' of
        None \<Rightarrow> Inl (KeyError ''name'')
      | Some name \<Rightarrow>
     (case fm ''description'' of
        None \<Rightarrow> Inl (KeyError ''description'')
      | Some desc \<Rightarrow>
     (let lines = [''---''];
          lines = lines @ [''name: '' @ py_str name];
          lines = lines @
            [if list_ex (\<lambda>c. py_in [c] desc) special_chars
             then ''description: "'' @ py_str desc @ ''"''
             else ''description: '' @ py_str desc];
          lines = lines @ [''license: MIT''];
          lines = (case fm ''allowed-tools'' of
                     Some v \<Rightarrow> lines @ [''allowed-tools: '' @ py_str v]
                   | None \<Rightarrow> lines);
          lines = lines @ [''metadata:''];
          lines = lines @ [''  author: https://github.com/Jeffallan''];
          lines = lines @ [''  version: "1.0.0"''];
          domain = (case SKILL_DOMAIN_MAP skill_name of Some d \<Rightarrow> d | None \<Rightarrow> ''unknown'');
          lines = lines @ [''  domain: '' @ domain];
          triggers = (case fm ''triggers'' of Some t \<Rightarrow> t | None \<Rightarrow> Seq []);
          triggers_str = (case triggers of Seq xs \<Rightarrow> str_join '', '' xs | _ \<Rightarrow> py_str triggers);
          lines = lines @ [''  triggers: '' @ triggers_str];
          lines = (case fm ''role'' of
                     Some v \<Rightarrow> lines @ [''  role: '' @ py_str v]
                   | None \<Rightarrow> lines);
          lines = (case fm ''scope'' of
                     Some v \<Rightarrow> lines @ [''  scope: '' @ py_str v]
                   | None \<Rightarrow> lines);
          lines = (case fm ''output-format'' of
                     Some v \<Rightarrow> lines @ [''  output-format: '' @ py_str v]
                   | None \<Rightarrow> lines);
          lines = lines @ [''---'']
      in Inr lines)))\<close>

definition build_new_frontmatter :: "fields \<Rightarrow> string \<Rightarrow> error + string" where
  "build_new_frontmatter fm skill_name =
     (case build_lines fm skill_name of
        Inl e \<Rightarrow> Inl e
      | Inr lines \<Rightarrow> Inr (join_lines lines))"

section \<open>The related-name resolver\<close>

text \<open>
  \<^verbatim>\<open>re.search(r"## Related Skills\s*\n(.*?)(?=\n## |\Z)", body, re.DOTALL)\<close>.
  At one position the pattern matches when the heading stands there and the run of
  whitespace after it holds a newline: the greedy \<^verbatim>\<open>\s*\<close> gives back characters until
  \<^verbatim>\<open>\n\<close> matches, so \<^verbatim>\<open>\n\<close> is the last newline of that run. The lazy group then is
  the shortest text followed by a newline and \<^verbatim>\<open>## \<close>, or the whole rest.
  \<open>match_section\<close> is the group at one position, \<open>search_section\<close> tries the
  positions from left to right.
\<close>

definition match_section :: "string \<Rightarrow> string option" where
  "match_section s =
     (if prefix ''## Related Skills'' s then
        (let r = drop (length ''## Related Skills'') s;
             ws = takeWhile isspace r
         in if newline \<in> set ws then
              (let t = rev (takeWhile (\<lambda>c. c \<noteq> newline) (rev ws)) @ drop (length ws) r
               in (case str_find (newline # ''## '') t of
                     None \<Rightarrow> Some t
                   | Some (a, b) \<Rightarrow> Some a))
            else None)
      else None)"

fun search_section :: "string \<Rightarrow> string option" where
  "search_section [] = match_section []"
| "search_section (c # cs) =
     (case match_section (c # cs) of
        Some g \<Rightarrow> Some g
      | None \<Rightarrow> search_section cs)"

text \<open>
  \<^verbatim>\<open>re.findall(r"\*\*(.+?)\*\*", section)\<close>. \<open>lazy_bold t\<close> matches \<^verbatim>\<open>(.+?)\*\*\<close> at the
  start of \<open>t\<close>: the shortest non-empty run without a newline that two asterisks
  follow, with the text after them.
\<close>

fun lazy_bold :: "string \<Rightarrow> (string \<times> string) option" where
  "lazy_bold [] = None"
| "lazy_bold (c # t) =
     (if c = newline then None
      else if prefix ''**'' t then Some ([c], drop 2 t)
      else map_option (\<lambda>(g, r). (c # g, r)) (lazy_bold t))"

function findall_bold :: "string \<Rightarrow> string list" where
  "findall_bold [] = []"
| "findall_bold (c # cs) =
     (if prefix ''**'' (c # cs) then
        (case lazy_bold (drop 2 (c # cs)) of
           Some (g, rest) \<Rightarrow> g # findall_bold rest
         | None \<Rightarrow> findall_bold cs)
      else findall_bold cs)"
  by pat_completeness auto
termination
proof (relation "measure length")
  have shorter: "\<And>t g r. lazy_bold t = Some (g, r) \<Longrightarrow> length r < length t"
  proof -
    fix t g r
    show "lazy_bold t = Some (g, r) \<Longrightarrow> length r < length t"
      by (induction t arbitrary: g r) (auto split: if_splits)
  qed
  fix c :: char and cs x2 g rest
  assume "prefix ''**'' (c # cs)" "lazy_bold (drop 2 (c # cs)) = Some x2" "(g, rest) = x2"
  then have "length rest < length (drop 2 (c # cs))"
    using shorter by metis
  then show "(rest, c # cs) \<in> measure length"
    by simp
qed auto

fun related_loop :: "string list \<Rightarrow> string set \<Rightarrow> string list \<Rightarrow> string list" where
  "related_loop [] valid_dirs related = related"
| "related_loop (name # display_names) valid_dirs related =
     (let dir_name = str_replace_char (str_lower name) CHR '' '' CHR ''-''
      in if dir_name \<in> valid_dirs
         then related_loop display_names valid_dirs (related @ [dir_name])
         else related_loop display_names valid_dirs related)"

definition extract_related_skills :: "string \<Rightarrow> string set \<Rightarrow> string" where
  "extract_related_skills body valid_dirs =
     (case search_section body of
        None \<Rightarrow> []
      | Some section \<Rightarrow> str_join '', '' (related_loop (findall_bold section) valid_dirs []))"

section \<open>The header splice\<close>

text \<open>The first loop of the splice: copy every line, and put the new line after the
  first one that, stripped, starts with \<^verbatim>\<open>output-format:\<close>.\<close>

fun copy_loop :: "string \<Rightarrow> string list \<Rightarrow> string list \<Rightarrow> bool \<Rightarrow> string list \<times> bool" where
  "copy_loop related_skills [] new_lines inserted = (new_lines, inserted)"
| "copy_loop related_skills (line # lines) new_lines inserted =
     (let new_lines = new_lines @ [line]
      in if \<not> inserted \<and> str_startswith (str_strip line) ''output-format:''
         then copy_loop related_skills lines
                (new_lines @ [''  related-skills: '' @ related_skills]) True
         else copy_loop related_skills lines new_lines inserted)"

text \<open>The second loop: \<^verbatim>\<open>for i in range(len(new_lines) - 1, -1, -1)\<close>, as the number \<open>n\<close>
  of indices still to visit; it returns the index where it breaks.\<close>

fun scan_back :: "string list \<Rightarrow> nat \<Rightarrow> nat option" where
  "scan_back new_lines 0 = None"
| "scan_back new_lines (Suc i) =
     (if str_startswith (new_lines ! i) ''  '' \<and> str_in '':'' (new_lines ! i) then Some i
      else scan_back new_lines i)"

definition add_related_skills_to_frontmatter :: "string \<Rightarrow> string \<Rightarrow> string" where
  "add_related_skills_to_frontmatter content related_skills =
     (case str_split_max content ''---'' 2 of
        p0 # fm_str # body # _ \<Rightarrow>
          if str_in ''  related-skills:'' fm_str then content
          else
            (let lines = split_lines fm_str;
                 (new_lines, inserted) = copy_loop related_skills lines [] False;
                 new_lines =
                   (if \<not> inserted then
                      (case scan_back new_lines (length new_lines) of
                         Some i \<Rightarrow> take (Suc i) new_lines
                                    @ [''  related-skills: '' @ related_skills]
                                    @ drop (Suc i) new_lines
                       | None \<Rightarrow> new_lines)
                    else new_lines);
                 new_fm = join_lines new_lines
             in ''---'' @ new_fm @ ''---'' @ body)
      | _ \<Rightarrow> content)"

section \<open>The two passes\<close>

text \<open>
  A skill directory is its name and the text of its \<^verbatim>\<open>SKILL.md\<close>, \<open>None\<close> when the file
  does not exist. A pass returns the pair \<^verbatim>\<open>(success, message)\<close> of the source and the
  file as it leaves it; \<open>Inl\<close> is an exception that leaves the function (nothing has been
  written then). What the script prints is not part of the model.
\<close>

type_synonym outcome = "(bool \<times> string) \<times> string option"

definition migrate_related_skills ::
  "yaml_loader option \<Rightarrow> string \<Rightarrow> string option \<Rightarrow> string set \<Rightarrow> bool \<Rightarrow> error + outcome" where
  "migrate_related_skills HAS_PYYAML skill_name skill_md valid_dirs dry_run =
     (case skill_md of
        None \<Rightarrow> Inr ((False, skill_name @ '': SKILL.md not found''), skill_md)
      | Some content \<Rightarrow>
        (case parse_frontmatter HAS_PYYAML content of
           Inl e \<Rightarrow> Inl e
         | Inr (None, body) \<Rightarrow>
             Inr ((False, skill_name @ '': No valid frontmatter found''), skill_md)
         | Inr (Some fm, body) \<Rightarrow>
             if (case fm ''metadata'' of
                   Some (Dict metadata) \<Rightarrow> ''related-skills'' \<in> fst ` set metadata
                 | _ \<Rightarrow> False)
             then Inr ((True, skill_name @ '': Already has related-skills (skipped)''), skill_md)
             else
               (let related_skills = extract_related_skills body valid_dirs;
                    new_content = add_related_skills_to_frontmatter content related_skills
                in if dry_run
                   then Inr ((True, skill_name @ '': Would add related-skills (dry-run)''), skill_md)
                   else Inr ((True, skill_name @ '': Added related-skills''), Some new_content))))"

definition required_fields :: "string list" where
  "required_fields = [''name'', ''description'', ''triggers'']"

definition migrate_skill ::
  "yaml_loader option \<Rightarrow> string \<Rightarrow> string option \<Rightarrow> bool \<Rightarrow> error + outcome" where
  "migrate_skill HAS_PYYAML skill_name skill_md dry_run =
     (case skill_md of
        None \<Rightarrow> Inr ((False, skill_name @ '': SKILL.md not found''), skill_md)
      | Some content \<Rightarrow>
        (case parse_frontmatter HAS_PYYAML content of
           Inl e \<Rightarrow> Inl e
         | Inr (None, body) \<Rightarrow>
             Inr ((False, skill_name @ '': No valid frontmatter found''), skill_md)
         | Inr (Some fm, body) \<Rightarrow>
             if fm ''metadata'' \<noteq> None
             then Inr ((True, skill_name @ '': Already migrated (skipped)''), skill_md)
             else
               (case find (\<lambda>field. fm field = None) required_fields of
                  Some field \<Rightarrow>
                    Inr ((False, skill_name @ '': Missing required field '' @ [CHR 0x27] @ field
                            @ [CHR 0x27]), skill_md)
                | None \<Rightarrow>
                    (case build_new_frontmatter fm skill_name of
                       Inl e \<Rightarrow> Inl e
                     | Inr new_frontmatter \<Rightarrow>
                         (let new_content = new_frontmatter @ body
                          in if dry_run
                             then Inr ((True, skill_name @ '': Would migrate (dry-run)''), skill_md)
                             else Inr ((True, skill_name @ '': Migrated''), Some new_content))))))"

text \<open>
  The loops of \<^verbatim>\<open>main\<close> over the skill directories, as far as the files go: each
  directory in turn, and an exception ends the run where it is raised.
\<close>

fun pass_A :: "yaml_loader option \<Rightarrow> bool \<Rightarrow> (string \<times> string option) list
    \<Rightarrow> (string \<times> string option) list" where
  "pass_A HAS_PYYAML dry_run [] = []"
| "pass_A HAS_PYYAML dry_run ((skill_name, skill_md) # skill_dirs) =
     (case migrate_skill HAS_PYYAML skill_name skill_md dry_run of
        Inl e \<Rightarrow> (skill_name, skill_md) # skill_dirs
      | Inr (result, skill_md') \<Rightarrow> (skill_name, skill_md') # pass_A HAS_PYYAML dry_run skill_dirs)"

fun pass_B :: "yaml_loader option \<Rightarrow> bool \<Rightarrow> string set \<Rightarrow> (string \<times> string option) list
    \<Rightarrow> (string \<times> string option) list" where
  "pass_B HAS_PYYAML dry_run valid_dirs [] = []"
| "pass_B HAS_PYYAML dry_run valid_dirs ((skill_name, skill_md) # skill_dirs) =
     (case migrate_related_skills HAS_PYYAML skill_name skill_md valid_dirs dry_run of
        Inl e \<Rightarrow> (skill_name, skill_md) # skill_dirs
      | Inr (result, skill_md') \<Rightarrow>
          (skill_name, skill_md') # pass_B HAS_PYYAML dry_run valid_dirs skill_dirs)"

section \<open>Notions for the statements and the proofs\<close>

text \<open>A line of the rebuilt header that is written only when its key is among the
  fields.\<close>

definition opt_line :: "string \<Rightarrow> pyval option \<Rightarrow> string list" where
  "opt_line key v = (case v of Some x \<Rightarrow> [key @ py_str x] | None \<Rightarrow> [])"

text \<open>
  The document format of the specification speaks of a delimiter that is a line holding
  only the marker. \<open>spec_delimiter_lines\<close> counts those lines; the parser itself looks
  for the three characters anywhere in the text.
\<close>

definition spec_delimiter_lines :: "string \<Rightarrow> nat" where
  "spec_delimiter_lines content = length (filter (\<lambda>line. line = ''---'') (split_lines content))"

text \<open>The two tests of the splice on a line of the header.\<close>

definition output_format_line :: "string \<Rightarrow> bool" where
  "output_format_line line = str_startswith (str_strip line) ''output-format:''"

definition metadata_field_line :: "string \<Rightarrow> bool" where
  "metadata_field_line line = (str_startswith line ''  '' \<and> str_in '':'' line)"

text \<open>The file of a skill once a call has returned or raised: an exception leaves it
  as it was.\<close>

definition file_after :: "string option \<Rightarrow> error + outcome \<Rightarrow> string option" where
  "file_after skill_md r = (case r of Inl e \<Rightarrow> skill_md | Inr (result, skill_md') \<Rightarrow> skill_md')"

text \<open>A text that can stand on one line of a header without closing it: it has no
  newline and does not hold the marker.\<close>

definition plain :: "string \<Rightarrow> bool" where
  "plain s = (\<not> sublist ''---'' s \<and> newline \<notin> set s)"

text \<open>The values the fallback parser produces from a header text without the marker
  are plain scalars and sequences of plain strings; \<open>plain_state\<close> says so of a state of
  its loop, and \<open>in_metadata\<close> is the state after the bare key \<^verbatim>\<open>metadata:\<close>.\<close>

fun plain_val :: "pyval \<Rightarrow> bool" where
  "plain_val (Str s) = plain s"
| "plain_val (Seq xs) = list_all plain xs"
| "plain_val (Dict kvs) = False"

definition plain_state :: "parser_state \<Rightarrow> bool" where
  "plain_state st =
     ((\<forall>k v. frontmatter st k = Some v \<longrightarrow> plain_val v)
      \<and> (\<forall>l. current_list st = Some l \<longrightarrow> list_all plain l))"

definition in_metadata :: "parser_state \<Rightarrow> bool" where
  "in_metadata st = (current_key st = Some ''metadata'' \<and> current_list st \<noteq> None)"

text \<open>The lines of the rebuilt header before and after the line \<^verbatim>\<open>metadata:\<close>.\<close>

definition top_lines :: "fields \<Rightarrow> pyval \<Rightarrow> pyval \<Rightarrow> string list" where
  \<open>top_lines fm name desc =
     [''name: '' @ py_str name,
      (if list_ex (\<lambda>c. py_in [c] desc) special_chars
       then ''description: "'' @ py_str desc @ ''"''
       else ''description: '' @ py_str desc),
      ''license: MIT'']
     @ opt_line ''allowed-tools: '' (fm ''allowed-tools'')\<close>

definition meta_lines :: "fields \<Rightarrow> string \<Rightarrow> string list" where
  \<open>meta_lines fm skill_name =
     [''  author: https://github.com/Jeffallan'', ''  version: "1.0.0"'',
      ''  domain: '' @ (case SKILL_DOMAIN_MAP skill_name of Some d \<Rightarrow> d | None \<Rightarrow> ''unknown''),
      ''  triggers: '' @ (case fm ''triggers'' of
                            None \<Rightarrow> []
                          | Some (Seq xs) \<Rightarrow> str_join '', '' xs
                          | Some t \<Rightarrow> py_str t)]
     @ opt_line ''  role: '' (fm ''role'')
     @ opt_line ''  scope: '' (fm ''scope'')
     @ opt_line ''  output-format: '' (fm ''output-format'')\<close>

text \<open>Every line after \<^verbatim>\<open>metadata:\<close> is indented and holds a colon.\<close>

definition indented_field :: "string \<Rightarrow> bool" where
  "indented_field l = (\<exists>p w. l = CHR '' '' # p @ CHR '':'' # w)"

section \<open>Example documents\<close>

text \<open>A header without triggers, and the fields of a skill that has not been migrated.\<close>

definition no_triggers_doc :: string where
  "no_triggers_doc = ''---\<newline>name: demo\<newline>description: A demo skill\<newline>role: expert\<newline>---\<newline># Demo\<newline>''"


text \<open>A text with a single delimiter line and the three characters of the marker inside
  a description.\<close>

definition dash_in_description_doc :: string where
  "dash_in_description_doc = ''---\<newline>name: x\<newline>description: a --- b\<newline>''"

text \<open>A body whose Related Skills section is empty: a blank line, then the next
  heading.\<close>

definition empty_section_body :: string where
  "empty_section_body = ''# Demo\<newline>\<newline>## Related Skills\<newline>\<newline>## Resources\<newline>- **Test Master** guide\<newline>''"

text \<open>The example of the specification: a section with the bold names Fullstack Guardian
  and Nonexistent Tool, and a bold name in the section after it.\<close>

definition related_example_body :: string where
  "related_example_body = ''# Demo\<newline>## Related Skills\<newline>- **Fullstack Guardian** - security\<newline>- **Nonexistent Tool** - none\<newline>\<newline>## Resources\<newline>- **Test Master** guide\<newline>''"

text \<open>A skill whose description holds the text \<^verbatim>\<open>  related-skills:\<close>, before and after
  Pass A.\<close>

definition described_marker_doc :: string where
  "described_marker_doc = ''---\<newline>name: demo\<newline>description: see  related-skills: below\<newline>triggers:\<newline>  - a\<newline>output-format: code\<newline>---\<newline>body\<newline>''"

definition described_marker_migrated :: string where
  \<open>described_marker_migrated = ''---\<newline>name: demo\<newline>description: "see  related-skills: below"\<newline>license: MIT\<newline>metadata:\<newline>  author: https://github.com/Jeffallan\<newline>  version: "1.0.0"\<newline>  domain: unknown\<newline>  triggers: a\<newline>  output-format: code\<newline>---\<newline>body\<newline>''\<close>

text \<open>A skill as Pass A leaves it (\<open>original_doc\<close> below is the document it comes from),
  with its header text.\<close>

definition migrated_doc :: string where
  \<open>migrated_doc = ''---\<newline>name: demo\<newline>description: A demo skill\<newline>license: MIT\<newline>metadata:\<newline>  author: https://github.com/Jeffallan\<newline>  version: "1.0.0"\<newline>  domain: unknown\<newline>  triggers: a\<newline>  output-format: code\<newline>---\<newline>body\<newline>''\<close>

definition migrated_header :: string where
  \<open>migrated_header = ''\<newline>name: demo\<newline>description: A demo skill\<newline>license: MIT\<newline>metadata:\<newline>  author: https://github.com/Jeffallan\<newline>  version: "1.0.0"\<newline>  domain: unknown\<newline>  triggers: a\<newline>  output-format: code\<newline>''\<close>


text \<open>The migrated skill after Pass B found no related skills, with its header text.\<close>

definition related_doc :: string where
  \<open>related_doc = ''---\<newline>name: demo\<newline>description: A demo skill\<newline>license: MIT\<newline>metadata:\<newline>  author: https://github.com/Jeffallan\<newline>  version: "1.0.0"\<newline>  domain: unknown\<newline>  triggers: a\<newline>  output-format: code\<newline>  related-skills: \<newline>---\<newline>body\<newline>''\<close>


text \<open>A structured reader for an example: whatever the header text, it returns fields
  with a metadata group that has the key \<^verbatim>\<open>related-skills\<close>.\<close>

definition reader_with_related :: yaml_loader where
  "reader_with_related yaml_str =
     Inr [''name'' \<mapsto> Str ''demo'', ''metadata'' \<mapsto> Dict [(''triggers'', ''a''), (''related-skills'', [])]]"

text \<open>
  An example with the structured reader. The allowed-tools value of \<open>escaped_doc\<close> is a
  double-quoted scalar with the escapes \<^verbatim>\<open>\n\<close> and \<^verbatim>\<open>\x2d\<close>; read, it is a text of three lines
  whose last line ends with the marker. \<open>reader_example\<close> is what \<^verbatim>\<open>yaml.safe_load\<close>
  returns on the header text of \<open>escaped_doc\<close> and on the header text that the second run
  cuts out of the rebuilt document (on any other text it raises).
\<close>

definition escaped_header :: string where
  \<open>escaped_header = ''\<newline>name: demo\<newline>description: A demo skill\<newline>triggers: a\<newline>allowed-tools: "Read''
     @ [CHR 0x5C] @ ''ntriggers: b'' @ [CHR 0x5C] @ ''nnote: x -'' @ [CHR 0x5C] @ ''x2d-"\<newline>''\<close>

definition escaped_doc :: string where
  "escaped_doc = ''---'' @ escaped_header @ ''---\<newline>body\<newline>''"

definition cut_header :: string where
  "cut_header = ''\<newline>name: demo\<newline>description: A demo skill\<newline>license: MIT\<newline>allowed-tools: Read\<newline>triggers: b\<newline>note: x ''"

definition reader_example :: yaml_loader where
  "reader_example yaml_str =
     (if yaml_str = escaped_header then
        Inr [''name'' \<mapsto> Str ''demo'', ''description'' \<mapsto> Str ''A demo skill'',
             ''triggers'' \<mapsto> Str ''a'',
             ''allowed-tools'' \<mapsto> Str ''Read\<newline>triggers: b\<newline>note: x ---'']
      else if yaml_str = cut_header then
        Inr [''name'' \<mapsto> Str ''demo'', ''description'' \<mapsto> Str ''A demo skill'',
             ''license'' \<mapsto> Str ''MIT'', ''allowed-tools'' \<mapsto> Str ''Read'',
             ''triggers'' \<mapsto> Str ''b'', ''note'' \<mapsto> Str ''x'']
      else Inl YAMLError)"

text \<open>What Pass A writes for \<open>escaped_doc\<close>, and what a second run writes then.\<close>

definition rebuilt_once :: string where
  \<open>rebuilt_once = ''---\<newline>name: demo\<newline>description: A demo skill\<newline>license: MIT\<newline>allowed-tools: Read\<newline>triggers: b\<newline>note: x ---\<newline>metadata:\<newline>  author: https://github.com/Jeffallan\<newline>  version: "1.0.0"\<newline>  domain: unknown\<newline>  triggers: a\<newline>---\<newline>body\<newline>''\<close>

definition rebuilt_twice :: string where
  \<open>rebuilt_twice = ''---\<newline>name: demo\<newline>description: A demo skill\<newline>license: MIT\<newline>allowed-tools: Read\<newline>metadata:\<newline>  author: https://github.com/Jeffallan\<newline>  version: "1.0.0"\<newline>  domain: unknown\<newline>  triggers: b\<newline>---\<newline>metadata:\<newline>  author: https://github.com/Jeffallan\<newline>  version: "1.0.0"\<newline>  domain: unknown\<newline>  triggers: a\<newline>---\<newline>body\<newline>''\<close>

text \<open>The skill that Pass A turns into \<open>migrated_doc\<close>.\<close>

definition original_doc :: string where
  "original_doc = ''---\<newline>name: demo\<newline>description: A demo skill\<newline>triggers:\<newline>  - a\<newline>output-format: code\<newline>---\<newline>body\<newline>''"

section \<open>Facts about the string operations\<close>

lemma str_find_SomeD: "str_find sep s = Some (a, b) \<Longrightarrow> s = a @ sep @ b"
proof (induction s arbitrary: a)
  case Nil
  then show ?case by (simp split: if_splits)
next
  case (Cons c cs)
  show ?case
  proof (cases "prefix sep (c # cs)")
    case True
    with Cons.prems show ?thesis
      by (auto simp: prefix_def)
  next
    case False
    with Cons.prems obtain a' where "str_find sep cs = Some (a', b)" "a = c # a'"
      by auto
    with Cons.IH show ?thesis by simp
  qed
qed

lemma str_find_None: "(str_find sep s = None) = (\<not> sublist sep s)"
  by (induction s) (auto simp: sublist_Cons_right)

lemma prefix_overlap:
  assumes "prefix sep (a @ sep @ b)" "a \<noteq> []"
  shows "prefix sep (a @ butlast sep)"
proof (cases "sep = []")
  case True
  then show ?thesis by simp
next
  case False
  have "length sep \<le> length (a @ butlast sep)"
    using assms(2) False by (cases a) auto
  moreover have "prefix (a @ butlast sep) (a @ sep @ b)"
    by (simp add: prefixeq_butlast prefix_prefix)
  ultimately show ?thesis
    using assms(1) by (meson prefix_length_prefix)
qed

lemma str_find_prefix: "str_find sep (sep @ b) = Some ([], b)"
proof (cases "sep @ b")
  case Nil
  then show ?thesis by simp
next
  case (Cons c cs)
  have "prefix sep (c # cs)"
    using Cons by (metis prefixI)
  then have "str_find sep (c # cs) = Some ([], drop (length sep) (c # cs))"
    by simp
  moreover have "drop (length sep) (c # cs) = b"
    by (metis Cons append_eq_conv_conj)
  ultimately show ?thesis
    using Cons by simp
qed

lemma str_find_first:
  "s = a @ sep @ b \<Longrightarrow> \<not> sublist sep (a @ butlast sep) \<Longrightarrow> str_find sep s = Some (a, b)"
proof (induction a arbitrary: s)
  case Nil
  then show ?case by (simp add: str_find_prefix)
next
  case (Cons x a)
  have np: "\<not> prefix sep ((x # a) @ sep @ b)"
    using prefix_overlap[of sep "x # a" b] Cons.prems(2) by blast
  have "\<not> sublist sep (a @ butlast sep)"
    using Cons.prems(2) by (simp add: sublist_Cons_right)
  then have "str_find sep (a @ sep @ b) = Some (a, b)"
    using Cons.IH by simp
  with np show ?case
    using Cons.prems(1) by simp
qed

lemma str_find_first_conv:
  "str_find sep s = Some (a, b) \<Longrightarrow> sep \<noteq> [] \<Longrightarrow> \<not> sublist sep (a @ butlast sep)"
proof (induction s arbitrary: a)
  case Nil
  then show ?case by simp
next
  case (Cons c cs)
  show ?case
  proof (cases "prefix sep (c # cs)")
    case True
    with Cons.prems have "a = []" by simp
    then show ?thesis
      using Cons.prems(2) sublist_length_le[of sep "butlast sep"] by (cases sep) auto 
  next
    case False
    with Cons.prems obtain a' where a': "str_find sep cs = Some (a', b)" "a = c # a'"
      by auto
    then have "\<not> sublist sep (a' @ butlast sep)"
      using Cons.IH Cons.prems(2) by blast
    moreover have "\<not> prefix sep (c # a' @ butlast sep)"
    proof
      assume "prefix sep (c # a' @ butlast sep)"
      moreover have "prefix (c # a' @ butlast sep) (c # cs)"
        using str_find_SomeD[OF a'(1)] by (simp add: prefixeq_butlast prefix_prefix)
      ultimately show False using False by (meson prefix_order.trans)
    qed
    ultimately show ?thesis
      using a'(2) by (simp add: sublist_Cons_right)
  qed
qed


section \<open>The header builder: quoting of the description\<close>

lemma build_lines_closed:
  assumes \<open>fm ''name'' = Some name\<close> and \<open>fm ''description'' = Some desc\<close>
  shows \<open>build_lines fm skill_name = Inr
     ([''---'', ''name: '' @ py_str name,
       (if list_ex (\<lambda>c. py_in [c] desc) special_chars
        then ''description: "'' @ py_str desc @ ''"''
        else ''description: '' @ py_str desc),
       ''license: MIT'']
      @ opt_line ''allowed-tools: '' (fm ''allowed-tools'')
      @ [''metadata:'', ''  author: https://github.com/Jeffallan'', ''  version: "1.0.0"'',
         ''  domain: '' @ (case SKILL_DOMAIN_MAP skill_name of Some d \<Rightarrow> d | None \<Rightarrow> ''unknown''),
         ''  triggers: '' @ (case fm ''triggers'' of
                               None \<Rightarrow> []
                             | Some (Seq xs) \<Rightarrow> str_join '', '' xs
                             | Some t \<Rightarrow> py_str t)]
      @ opt_line ''  role: '' (fm ''role'')
      @ opt_line ''  scope: '' (fm ''scope'')
      @ opt_line ''  output-format: '' (fm ''output-format'')
      @ [''---''])\<close>
proof -
  have a: "\<And>L f x. (case x of Some v \<Rightarrow> L @ [f v] | None \<Rightarrow> L)
             = L @ (case x of Some v \<Rightarrow> [f v] | None \<Rightarrow> [])"
    by (simp split: option.splits)
  have t: "(case (case fm ''triggers'' of None \<Rightarrow> Seq [] | Some t \<Rightarrow> t) of
              Seq xs \<Rightarrow> str_join '', '' xs
            | _ \<Rightarrow> py_str (case fm ''triggers'' of None \<Rightarrow> Seq [] | Some t \<Rightarrow> t))
           = (case fm ''triggers'' of
                None \<Rightarrow> []
              | Some (Seq xs) \<Rightarrow> str_join '', '' xs
              | Some t \<Rightarrow> py_str t)"
    by (simp split: option.splits pyval.splits)
  show ?thesis
    unfolding build_lines_def Let_def assms option.case a t opt_line_def
    by simp
qed


section \<open>Pass A: the required fields\<close>

lemma find_first_missing:
  "list_all (\<lambda>f. \<not> P f) pre \<Longrightarrow> P x \<Longrightarrow> find P (pre @ x # post) = Some x"
  by (induction pre) auto

text \<open>
  Claim C7. When the parsed header has no \<^verbatim>\<open>metadata\<close> key and lacks a required field,
  Pass A fails with the message that names the first missing field, in the order name,
  description, triggers, and the file is left as it was (with or without dry-run).
\<close>

theorem migrate_skill_missing_field:
  assumes "parse_frontmatter HAS_PYYAML content = Inr (Some fm, body)"
    and "fm ''metadata'' = None"
    and "required_fields = pre @ field # post"
    and "list_all (\<lambda>f. fm f \<noteq> None) pre"
    and "fm field = None"
  shows "migrate_skill HAS_PYYAML skill_name (Some content) dry_run =
           Inr ((False, skill_name @ '': Missing required field '' @ [CHR 0x27] @ field @ [CHR 0x27]),
                Some content)
         \<and> required_fields = [''name'', ''description'', ''triggers'']"
proof -
  have "find (\<lambda>f. fm f = None) required_fields = Some field"
    using assms(3-5) find_first_missing[of "\<lambda>f. fm f = None" pre field post] by simp
  then show ?thesis
    using assms(1,2) by (simp add: migrate_skill_def required_fields_def)
qed

lemma no_triggers_parse:
  "parse_frontmatter None no_triggers_doc =
     Inr (Some (simple_parser ''\<newline>name: demo\<newline>description: A demo skill\<newline>role: expert\<newline>''),
          ''\<newline># Demo\<newline>'')"
  by (simp add: parse_frontmatter_def no_triggers_doc_def str_startswith_def numeral_2_eq_2)

theorem migrate_skill_missing_field_witness:
  "migrate_skill None ''demo'' (Some no_triggers_doc) False =
     Inr ((False, ''demo: Missing required field '' @ [CHR 0x27] @ ''triggers'' @ [CHR 0x27]),
          Some no_triggers_doc)"
proof -
  let ?fm = "simple_parser ''\<newline>name: demo\<newline>description: A demo skill\<newline>role: expert\<newline>''"
  have m: "?fm ''metadata'' = None" by code_simp
  have t: "?fm ''triggers'' = None" by code_simp
  have n: "?fm ''name'' \<noteq> None" by code_simp
  have d: "?fm ''description'' \<noteq> None" by code_simp
  have r: "required_fields = [''name'', ''description''] @ ''triggers'' # []"
    by (simp add: required_fields_def)
  show ?thesis
    using migrate_skill_missing_field[OF no_triggers_parse m r _ t, of "''demo''" False] n d
    by simp
qed

section \<open>The header builder: the order of the fields\<close>




section \<open>The header parser: when there is no header\<close>

lemma split_header:
  "str_split_max (''---'' @ r) ''---'' 2 =
     (case str_find ''---'' r of None \<Rightarrow> [[], r] | Some (a, b) \<Rightarrow> [[], a, b])"
  by (simp add: numeral_2_eq_2 split: option.splits)

lemma parse_frontmatter_cases:
  "parse_frontmatter HAS_PYYAML content =
     (if \<not> prefix ''---'' content then Inr (None, content)
      else (case str_find ''---'' (drop 3 content) of
              None \<Rightarrow> Inr (None, content)
            | Some (yaml_str, body) \<Rightarrow>
                (case HAS_PYYAML of
                   None \<Rightarrow> Inr (Some (simple_parser yaml_str), body)
                 | Some safe_load \<Rightarrow>
                     (case safe_load yaml_str of
                        Inl e \<Rightarrow> Inl e
                      | Inr fm \<Rightarrow> Inr (Some fm, body)))))"
proof (cases "prefix ''---'' content")
  case False
  then show ?thesis by (simp add: parse_frontmatter_def str_startswith_def)
next
  case True
  then obtain r where r: "content = ''---'' @ r"
    by (auto simp: prefix_def)
  have d: "drop 3 content = r"
    by (simp add: r)
  show ?thesis
    unfolding parse_frontmatter_def str_startswith_def d
    unfolding r split_header
    by (simp split: option.splits sum.splits)
qed

text \<open>
  Claim C8 reads the delimiter as a line that holds only the marker. This text has one
  such line, fewer than two, and the parser still returns fields and a body: it cuts the
  header at the three characters inside the description.
\<close>

theorem parse_frontmatter_delimiter_counterexample:
  "spec_delimiter_lines dash_in_description_doc < 2 \<and>
   parse_frontmatter None dash_in_description_doc =
     Inr (Some (simple_parser ''\<newline>name: x\<newline>description: a ''), '' b\<newline>'')"
  by (simp add: spec_delimiter_lines_def dash_in_description_doc_def split_lines_def newline_def
      parse_frontmatter_cases)

text \<open>
  Claim C8, as amended. The parser reports no header exactly when the text does not start
  with the three characters \<^verbatim>\<open>---\<close> or holds no further occurrence of them after these
  (an occurrence anywhere counts, not only a line of its own). Otherwise the header text
  runs from the opening marker to the first further occurrence, the body is the text
  after that occurrence, and the result is the fields read from the header text with
  that body (or the exception of the structured reader).
\<close>

theorem parse_frontmatter_no_header:
  "((parse_frontmatter HAS_PYYAML content = Inr (None, content)) =
      (\<not> (\<exists>yaml_str body. content = ''---'' @ yaml_str @ ''---'' @ body)))
   \<and> (content = ''---'' @ yaml_str @ ''---'' @ body \<and> \<not> sublist ''---'' (yaml_str @ ''--'') \<longrightarrow>
        parse_frontmatter HAS_PYYAML content =
          (case HAS_PYYAML of
             None \<Rightarrow> Inr (Some (simple_parser yaml_str), body)
           | Some safe_load \<Rightarrow>
               (case safe_load yaml_str of
                  Inl e \<Rightarrow> Inl e
                | Inr fm \<Rightarrow> Inr (Some fm, body))))"
proof (intro conjI impI)
  show "(parse_frontmatter HAS_PYYAML content = Inr (None, content)) =
      (\<not> (\<exists>yaml_str body. content = ''---'' @ yaml_str @ ''---'' @ body))"
  proof (cases "prefix ''---'' content")
    case False
    then show ?thesis
      by (auto simp: parse_frontmatter_cases)
  next
    case True
    then obtain r where r: "content = ''---'' @ r"
      by (auto simp: prefix_def)
    have "(\<exists>yaml_str body. content = ''---'' @ yaml_str @ ''---'' @ body) = sublist ''---'' r"
      unfolding r sublist_def by auto
    moreover have "(parse_frontmatter HAS_PYYAML content = Inr (None, content))
        = (str_find ''---'' r = None)"
      by (simp add: parse_frontmatter_cases r split: option.splits sum.splits)
    ultimately show ?thesis
      by (simp add: str_find_None)
  qed
next
  assume a: "content = ''---'' @ yaml_str @ ''---'' @ body \<and> \<not> sublist ''---'' (yaml_str @ ''--'')"
  then have "str_find ''---'' (yaml_str @ ''---'' @ body) = Some (yaml_str, body)"
    using str_find_first[of "yaml_str @ ''---'' @ body" yaml_str "''---''" body] by simp
  then show "parse_frontmatter HAS_PYYAML content =
          (case HAS_PYYAML of
             None \<Rightarrow> Inr (Some (simple_parser yaml_str), body)
           | Some safe_load \<Rightarrow>
               (case safe_load yaml_str of
                  Inl e \<Rightarrow> Inl e
                | Inr fm \<Rightarrow> Inr (Some fm, body)))"
    using a by (simp add: parse_frontmatter_cases)
qed

theorem parse_frontmatter_no_header_witness:
  "parse_frontmatter None ''---\<newline>name: x\<newline>---\<newline>Body --- text'' =
     Inr (Some (simple_parser ''\<newline>name: x\<newline>''), ''\<newline>Body --- text'')"
proof -
  have "\<not> sublist ''---'' (''\<newline>name: x\<newline>'' @ ''--'')"
    by code_simp
  then show ?thesis
    using parse_frontmatter_no_header[of None "''---\<newline>name: x\<newline>---\<newline>Body --- text''"
        "''\<newline>name: x\<newline>''" "''\<newline>Body --- text''"]
    by simp
qed

section \<open>The related-name resolver on examples\<close>

lemma related_loop_filter:
  "related_loop display_names valid_dirs related =
     related @ filter (\<lambda>d. d \<in> valid_dirs)
                 (map (\<lambda>name. str_replace_char (str_lower name) CHR '' '' CHR ''-'') display_names)"
  by (induction display_names arbitrary: related) (auto simp: Let_def)

text \<open>
  Claim C6 asks for the bold names of the Related Skills section, which ends at the next
  top-level heading. On a body whose Related Skills heading is followed by a blank line
  and then by the next heading, the section is empty, and the claim gives the empty
  string. The code does otherwise: the whitespace after the heading is matched up to
  the newline just before the next heading, the text found as the section starts with
  that heading and runs on to the one after it (here to the end), and the name of the
  following section is returned.
\<close>

theorem extract_related_skills_empty_section:
  "search_section empty_section_body = Some ''## Resources\<newline>- **Test Master** guide\<newline>''
   \<and> extract_related_skills empty_section_body {''test-master''} = ''test-master''"
  by code_simp

text \<open>On the example of the specification only the bold name that is a valid identifier
  is kept, and the names of the next section are not read.\<close>

lemma extract_related_skills_example:
  "extract_related_skills related_example_body {''fullstack-guardian'', ''test-master''}
     = ''fullstack-guardian''"
  by code_simp

lemma extract_related_skills_absent: "search_section body = None \<Longrightarrow> extract_related_skills body valid_dirs = []"
  by (simp add: extract_related_skills_def)

section \<open>Lines, and the two loops of the splice\<close>

lemma str_split_char_ne [simp]: "str_split_char s c \<noteq> []"
  by (induction s) (auto split: list.splits)

lemma str_join_Cons: "ys \<noteq> [] \<Longrightarrow> str_join sep (x # ys) = x @ sep @ str_join sep ys"
  by (cases ys) auto

lemma str_join_append:
  "xs \<noteq> [] \<Longrightarrow> ys \<noteq> [] \<Longrightarrow> str_join sep (xs @ ys) = str_join sep xs @ sep @ str_join sep ys"
proof (induction xs)
  case Nil
  then show ?case by simp
next
  case (Cons x xs)
  show ?case
  proof (cases "xs = []")
    case True
    then show ?thesis using Cons.prems by (simp add: str_join_Cons)
  next
    case False
    then show ?thesis using Cons by (simp add: str_join_Cons)
  qed
qed

lemma str_join_split_char: "str_join [c] (str_split_char s c) = s"
proof (induction s)
  case Nil
  then show ?case by simp
next
  case (Cons x xs)
  show ?case
  proof (cases "x = c")
    case True
    then show ?thesis using Cons by (simp add: str_join_Cons)
  next
    case False
    obtain l ls where l: "str_split_char xs c = l # ls"
      by (cases "str_split_char xs c") auto
    show ?thesis
      using False Cons l by (cases ls) auto
  qed
qed

lemma join_split_lines: "join_lines (split_lines s) = s"
  by (simp add: join_lines_def split_lines_def str_join_split_char)

lemma split_lines_ne [simp]: "split_lines s \<noteq> []"
  by (simp add: split_lines_def)

lemma str_split_char_join:
  "ls \<noteq> [] \<Longrightarrow> list_all (\<lambda>l. c \<notin> set l) ls \<Longrightarrow> str_split_char (str_join [c] ls) c = ls"
proof (induction ls)
  case Nil
  then show ?case by simp
next
  case (Cons l ls)
  have one: "\<And>l. c \<notin> set l \<Longrightarrow> str_split_char l c = [l]"
  proof -
    fix l show "c \<notin> set l \<Longrightarrow> str_split_char l c = [l]"
      by (induction l) auto
  qed
  have app: "\<And>l r. c \<notin> set l \<Longrightarrow> str_split_char (l @ c # r) c = l # str_split_char r c"
  proof -
    fix l r show "c \<notin> set l \<Longrightarrow> str_split_char (l @ c # r) c = l # str_split_char r c"
      by (induction l) auto
  qed
  show ?case
  proof (cases "ls = []")
    case True
    then show ?thesis using Cons.prems one by simp
  next
    case False
    then show ?thesis
      using Cons app by (simp add: str_join_Cons)
  qed
qed

lemma split_join_lines:
  "ls \<noteq> [] \<Longrightarrow> list_all (\<lambda>l. newline \<notin> set l) ls \<Longrightarrow> split_lines (join_lines ls) = ls"
  by (simp add: split_lines_def join_lines_def str_split_char_join)

lemma copy_loop_inserted:
  "copy_loop rel lines new_lines True = (new_lines @ lines, True)"
  by (induction lines arbitrary: new_lines) (auto simp: Let_def)

lemma copy_loop_none:
  "list_all (\<lambda>l. \<not> output_format_line l) lines \<Longrightarrow>
   copy_loop rel lines new_lines inserted = (new_lines @ lines, inserted)"
  by (induction lines arbitrary: new_lines) (auto simp: Let_def output_format_line_def)

lemma copy_loop_first:
  "list_all (\<lambda>l. \<not> output_format_line l) pre \<Longrightarrow> output_format_line line \<Longrightarrow>
   copy_loop rel (pre @ line # post) new_lines False =
     (new_lines @ pre @ [line, ''  related-skills: '' @ rel] @ post, True)"
  by (induction pre arbitrary: new_lines)
     (auto simp: Let_def output_format_line_def copy_loop_inserted)

lemma scan_back_step: "\<not> metadata_field_line (xs ! i) \<Longrightarrow> scan_back xs (Suc i) = scan_back xs i"
  by (auto simp: metadata_field_line_def)

lemma scan_back_last:
  "metadata_field_line line \<Longrightarrow> list_all (\<lambda>l. \<not> metadata_field_line l) post \<Longrightarrow>
   scan_back (pre @ line # post @ rest) (Suc (length pre + length post)) = Some (length pre)"
proof (induction post arbitrary: rest rule: rev_induct)
  case Nil
  then show ?case by (simp add: metadata_field_line_def)
next
  case (snoc x xs)
  let ?l = "pre @ line # (xs @ [x]) @ rest"
  have x: "?l ! (Suc (length pre + length xs)) = x"
    by (simp add: nth_append)
  have nx: "\<not> metadata_field_line x"
    using snoc.prems by simp
  have "scan_back ?l (Suc (length pre + length (xs @ [x])))
          = scan_back ?l (Suc (Suc (length pre + length xs)))"
    by simp
  also have "\<dots> = scan_back ?l (Suc (length pre + length xs))"
  proof (rule scan_back_step)
    show "\<not> metadata_field_line (?l ! Suc (length pre + length xs))"
      unfolding x by (rule nx)
  qed
  also have "\<dots> = Some (length pre)"
    using snoc.IH[of "x # rest"] snoc.prems by simp
  finally show ?case .
qed

lemma scan_back_none:
  "list_all (\<lambda>l. \<not> metadata_field_line l) xs \<Longrightarrow> n \<le> length xs \<Longrightarrow> scan_back xs n = None"
  by (induction n) (auto simp: metadata_field_line_def list_all_length)

text \<open>The splice on a text cut into marker, header text, marker and body.\<close>

lemma split_content:
  assumes "content = p0 @ ''---'' @ fm_str @ ''---'' @ body"
    and "\<not> sublist ''---'' (p0 @ ''--'')" and "\<not> sublist ''---'' (fm_str @ ''--'')"
  shows "str_split_max content ''---'' 2 = [p0, fm_str, body]"
proof -
  have 1: "str_find ''---'' content = Some (p0, fm_str @ ''---'' @ body)"
    using str_find_first[of content p0 "''---''" "fm_str @ ''---'' @ body"] assms(1,2) by simp
  have 2: "str_find ''---'' (fm_str @ ''---'' @ body) = Some (fm_str, body)"
    using str_find_first[of "fm_str @ ''---'' @ body" fm_str "''---''" body] assms(3) by simp
  show ?thesis
    using 1 2 by (simp add: numeral_2_eq_2)
qed

lemma add_related_guard:
  assumes "str_split_max content ''---'' 2 = [p0, fm_str, body]"
    and "str_in ''  related-skills:'' fm_str"
  shows "add_related_skills_to_frontmatter content rel = content"
  using assms by (simp add: add_related_skills_to_frontmatter_def)

lemma add_related_after_output_format:
  assumes "str_split_max content ''---'' 2 = [p0, fm_str, body]"
    and "\<not> str_in ''  related-skills:'' fm_str"
    and "split_lines fm_str = pre @ line # post"
    and "list_all (\<lambda>l. \<not> output_format_line l) pre" and "output_format_line line"
  shows "add_related_skills_to_frontmatter content rel =
           ''---'' @ join_lines (pre @ [line, ''  related-skills: '' @ rel] @ post) @ ''---'' @ body"
  using assms copy_loop_first[of pre line rel post "[]"]
  by (simp add: add_related_skills_to_frontmatter_def)

lemma add_related_after_last_field:
  assumes "str_split_max content ''---'' 2 = [p0, fm_str, body]"
    and "\<not> str_in ''  related-skills:'' fm_str"
    and "split_lines fm_str = pre @ line # post"
    and "list_all (\<lambda>l. \<not> output_format_line l) (pre @ line # post)"
    and "metadata_field_line line"
    and "list_all (\<lambda>l. \<not> metadata_field_line l) post"
  shows "add_related_skills_to_frontmatter content rel =
           ''---'' @ join_lines (pre @ [line, ''  related-skills: '' @ rel] @ post) @ ''---'' @ body"
proof -
  have c: "copy_loop rel (pre @ line # post) [] False = (pre @ line # post, False)"
    using copy_loop_none[OF assms(4), of rel "[]" False] by simp
  have s: "scan_back (pre @ line # post) (length (pre @ line # post)) = Some (length pre)"
    using scan_back_last[OF assms(5,6), of pre "[]"] by simp
  show ?thesis
    using assms(1-3) c s by (simp add: add_related_skills_to_frontmatter_def)
qed

lemma add_related_no_place:
  assumes "str_split_max content ''---'' 2 = [p0, fm_str, body]"
    and "\<not> str_in ''  related-skills:'' fm_str"
    and "list_all (\<lambda>l. \<not> output_format_line l) (split_lines fm_str)"
    and "list_all (\<lambda>l. \<not> metadata_field_line l) (split_lines fm_str)"
  shows "add_related_skills_to_frontmatter content rel = ''---'' @ fm_str @ ''---'' @ body"
proof -
  have c: "copy_loop rel (split_lines fm_str) [] False = (split_lines fm_str, False)"
    using copy_loop_none[OF assms(3), of rel "[]" False] by simp
  have s: "scan_back (split_lines fm_str) (length (split_lines fm_str)) = None"
    using scan_back_none[OF assms(4)] by simp
  show ?thesis
    using assms(1,2) c s by (simp add: add_related_skills_to_frontmatter_def join_split_lines)
qed

lemma prefix_sep_char:
  assumes "c \<notin> set sep" and "prefix sep (a @ c # b)"
  shows "prefix sep a"
proof -
  from assms(2) obtain t where t: "a @ c # b = sep @ t"
    by (auto simp: prefix_def)
  then consider (1) us where "a = sep @ us" | (2) us where "a @ us = sep" "c # b = us @ t"
    by (auto simp: append_eq_append_conv2)
  then show ?thesis
  proof cases
    case 1
    then show ?thesis by simp
  next
    case 2
    show ?thesis
    proof (cases us)
      case Nil
      then show ?thesis using 2 by simp
    next
      case (Cons u us')
      then have "c \<in> set sep" using 2 by auto
      then show ?thesis using assms(1) by simp
    qed
  qed
qed

lemma sublist_sep_char:
  assumes "c \<notin> set sep"
  shows "sublist sep (a @ c # b) = (sublist sep a \<or> sublist sep b)"
proof
  assume "sublist sep (a @ c # b)"
  then consider "sublist sep a" | "sublist sep (c # b)"
    | xs1 xs2 where "sep = xs1 @ xs2" "suffix xs1 a" "prefix xs2 (c # b)"
    by (auto simp: sublist_append)
  then show "sublist sep a \<or> sublist sep b"
  proof cases
    case 1
    then show ?thesis by simp
  next
    case 2
    then have "prefix sep (c # b) \<or> sublist sep b"
      by (simp add: sublist_Cons_right)
    moreover have "prefix sep (c # b) \<Longrightarrow> sep = []"
      using assms by (cases sep) auto
    ultimately show ?thesis by auto
  next
    case 3
    have "xs2 = []"
      using 3(1,3) assms by (cases xs2) auto
    then show ?thesis
      using 3 by auto
  qed
next
  assume "sublist sep a \<or> sublist sep b"
  then show "sublist sep (a @ c # b)"
    by (auto simp: sublist_append sublist_Cons_right)
qed

lemma str_find_after_char:
  assumes "c \<notin> set sep" and "\<not> sublist sep q"
  shows "str_find sep (q @ c # r) = map_option (\<lambda>(a, b). (q @ c # a, b)) (str_find sep r)"
  using assms(2)
proof (induction q)
  case Nil
  have "sep \<noteq> []" using Nil by auto
  then have "\<not> prefix sep (c # r)"
    using assms(1) by (cases sep) auto
  then show ?case
    by (simp add: option.map_comp comp_def case_prod_unfold)
next
  case (Cons x q)
  have np: "\<not> prefix sep (x # q @ c # r)"
  proof
    assume "prefix sep (x # q @ c # r)"
    then have "prefix sep (x # q)"
      using prefix_sep_char[OF assms(1), of "x # q" r] by simp
    then show False using Cons.prems by auto
  qed
  have "\<not> sublist sep q"
    using Cons.prems by (auto simp: sublist_Cons_right)
  then show ?case
    using Cons.IH np by (simp add: option.map_comp comp_def case_prod_unfold)
qed

lemma join_lines_prefix:
  "prefix (join_lines xs) (join_lines (xs @ ys))"
proof (cases "xs = [] \<or> ys = []")
  case True
  then show ?thesis by (auto simp: join_lines_def)
next
  case False
  then show ?thesis
    by (simp add: join_lines_def str_join_append)
qed

lemma inserted_line_found:
  assumes "split_lines fm_str = pre @ line # post" and "\<not> sublist ''---'' fm_str"
  shows "\<exists>a b. str_split_max (''---'' @ join_lines (pre @ [line, ''  related-skills: '' @ rel] @ post)
                                @ ''---'' @ body) ''---'' 2 = [[], a, b]
               \<and> str_in ''  related-skills:'' a"
proof -
  let ?J = "join_lines (pre @ [line])"
  let ?T = "str_join [newline] ((''  related-skills: '' @ rel) # post)"
  obtain tail where tail: "?T = ''  related-skills'' @ CHR '':'' # tail"
    by (cases post) (auto simp: str_join_Cons)
  have N: "join_lines (pre @ [line, ''  related-skills: '' @ rel] @ post) = ?J @ newline # ?T"
    using str_join_append[of "pre @ [line]" "(''  related-skills: '' @ rel) # post" "[newline]"]
    by (simp add: join_lines_def)
  have "prefix ?J (join_lines ((pre @ [line]) @ post))"
    by (rule join_lines_prefix)
  then have "prefix ?J fm_str"
    using assms(1) join_split_lines[of fm_str] by simp
  then have nJ: "\<not> sublist ''---'' ?J"
    using assms(2) by (meson prefix_imp_sublist sublist_order.order_trans)
  have nm: "\<not> sublist ''---'' ''  related-skills''"
    by code_simp
  let ?Q = "?J @ newline # ''  related-skills''"
  have nQ: "\<not> sublist ''---'' ?Q"
    using sublist_sep_char[of newline "''---''" ?J "''  related-skills''"] nJ nm
    by (simp add: newline_def)
  let ?R = "tail @ ''---'' @ body"
  have whole: "join_lines (pre @ [line, ''  related-skills: '' @ rel] @ post) @ ''---'' @ body
                 = ?Q @ CHR '':'' # ?R"
    unfolding N tail by simp
  have "sublist ''---'' ?R"
    by (metis sublist_appendI)
  then obtain a' b' where f: "str_find ''---'' ?R = Some (a', b')"
    using str_find_None[of "''---''" ?R] by (cases "str_find ''---'' ?R") auto
  have "str_find ''---'' (?Q @ CHR '':'' # ?R) = Some (?Q @ CHR '':'' # a', b')"
    using str_find_after_char[of "CHR '':''" "''---''" ?Q ?R] nQ f by simp
  then have "str_split_max (''---'' @ ?Q @ CHR '':'' # ?R) ''---'' 2 = [[], ?Q @ CHR '':'' # a', b']"
    unfolding split_header by simp
  moreover have "str_in ''  related-skills:'' (?Q @ CHR '':'' # a')"
  proof -
    have "?Q @ CHR '':'' # a' = (?J @ [newline]) @ ''  related-skills:'' @ a'"
      by simp
    then show ?thesis
      unfolding str_in_def by (metis sublist_appendI)
  qed
  ultimately show ?thesis
    unfolding whole by blast
qed

lemma inserted_fixed:
  assumes "split_lines fm_str = pre @ line # post" and "\<not> sublist ''---'' fm_str"
  shows "add_related_skills_to_frontmatter
           (''---'' @ join_lines (pre @ [line, ''  related-skills: '' @ rel] @ post) @ ''---'' @ body) rel'
         = ''---'' @ join_lines (pre @ [line, ''  related-skills: '' @ rel] @ post) @ ''---'' @ body"
  using inserted_line_found[OF assms, of rel body] add_related_guard by blast

lemma first_place:
  assumes "list_ex P xs"
  shows "\<exists>pre x post. xs = pre @ x # post \<and> list_all (\<lambda>l. \<not> P l) pre \<and> P x"
proof -
  from assms have "\<exists>x\<in>set xs. P x" by (simp add: list_ex_iff)
  then obtain pre x post where "xs = pre @ x # post" "P x" "\<forall>y\<in>set pre. \<not> P y"
    using split_list_first_prop[of xs P] by blast
  then show ?thesis by (auto simp: list_all_iff)
qed

lemma last_place:
  assumes "list_ex P xs"
  shows "\<exists>pre x post. xs = pre @ x # post \<and> P x \<and> list_all (\<lambda>l. \<not> P l) post"
proof -
  from assms have "\<exists>x\<in>set xs. P x" by (simp add: list_ex_iff)
  then obtain pre x post where "xs = pre @ x # post" "P x" "\<forall>y\<in>set post. \<not> P y"
    using split_list_last_prop[of xs P] by blast
  then show ?thesis by (auto simp: list_all_iff)
qed

text \<open>What the splice returns, by cases on the header text.\<close>

lemma add_related_cases:
  assumes "str_split_max content ''---'' 2 = [p0, fm_str, body]"
  shows "(str_in ''  related-skills:'' fm_str \<and> (\<forall>rel. add_related_skills_to_frontmatter content rel = content))
       \<or> (\<exists>pre line post. split_lines fm_str = pre @ line # post
             \<and> (\<forall>rel. add_related_skills_to_frontmatter content rel =
                   ''---'' @ join_lines (pre @ [line, ''  related-skills: '' @ rel] @ post) @ ''---'' @ body))
       \<or> (\<not> list_ex (\<lambda>l. output_format_line l \<or> metadata_field_line l) (split_lines fm_str)
           \<and> (\<forall>rel. add_related_skills_to_frontmatter content rel = ''---'' @ fm_str @ ''---'' @ body))"
proof (cases "str_in ''  related-skills:'' fm_str")
  case True
  then show ?thesis
    using add_related_guard[OF assms] by blast
next
  case guard: False
  show ?thesis
  proof (cases "list_ex output_format_line (split_lines fm_str)")
    case True
    then obtain pre line post where "split_lines fm_str = pre @ line # post"
      "list_all (\<lambda>l. \<not> output_format_line l) pre" "output_format_line line"
      using first_place[of output_format_line] by blast
    then show ?thesis
      using add_related_after_output_format[OF assms guard] by blast
  next
    case no_of: False
    then have no_of': "list_all (\<lambda>l. \<not> output_format_line l) (split_lines fm_str)"
      by (simp add: list_all_iff list_ex_iff)
    show ?thesis
    proof (cases "list_ex metadata_field_line (split_lines fm_str)")
      case True
      then obtain pre line post where p: "split_lines fm_str = pre @ line # post"
        "metadata_field_line line" "list_all (\<lambda>l. \<not> metadata_field_line l) post"
        using last_place[of metadata_field_line] by blast
      have "\<forall>rel. add_related_skills_to_frontmatter content rel =
                   ''---'' @ join_lines (pre @ [line, ''  related-skills: '' @ rel] @ post) @ ''---'' @ body"
        using add_related_after_last_field[OF assms guard p(1) _ p(2,3)] no_of' p(1) by simp
      then show ?thesis using p(1) by blast
    next
      case False
      then have no_mf: "list_all (\<lambda>l. \<not> metadata_field_line l) (split_lines fm_str)"
        by (simp add: list_all_iff list_ex_iff)
      have "\<not> list_ex (\<lambda>l. output_format_line l \<or> metadata_field_line l) (split_lines fm_str)"
        using no_of' no_mf by (auto simp: list_all_iff list_ex_iff)
      then show ?thesis
        using add_related_no_place[OF assms guard no_of' no_mf] by blast
    qed
  qed
qed

lemma add_related_twice:
  assumes "prefix ''---'' content"
  shows "add_related_skills_to_frontmatter (add_related_skills_to_frontmatter content rel) rel'
           = add_related_skills_to_frontmatter content rel"
proof -
  from assms obtain r where r: "content = ''---'' @ r"
    by (auto simp: prefix_def)
  show ?thesis
  proof (cases "str_find ''---'' r")
    case None
    then have "\<And>x. add_related_skills_to_frontmatter content x = content"
      unfolding r add_related_skills_to_frontmatter_def split_header by simp
    then show ?thesis by simp
  next
    case (Some ab)
    then obtain fm_str body where f: "str_find ''---'' r = Some (fm_str, body)"
      by (cases ab) auto
    have s: "str_split_max content ''---'' 2 = [[], fm_str, body]"
      unfolding r split_header using f by simp
    have c: "content = ''---'' @ fm_str @ ''---'' @ body"
      using str_find_SomeD[OF f] r by simp
    have "\<not> sublist ''---'' (fm_str @ butlast ''---'')"
      using str_find_first_conv[OF f] by simp
    then have n: "\<not> sublist ''---'' fm_str"
      by (metis sublist_order.order_trans sublist_append_rightI)
    from add_related_cases[OF s] show ?thesis
    proof (elim disjE exE conjE)
      assume "\<forall>rel. add_related_skills_to_frontmatter content rel = content"
      then show ?thesis by simp
    next
      fix pre line post
      assume "split_lines fm_str = pre @ line # post"
        and "\<forall>rel. add_related_skills_to_frontmatter content rel =
               ''---'' @ join_lines (pre @ [line, ''  related-skills: '' @ rel] @ post) @ ''---'' @ body"
      then show ?thesis
        using inserted_fixed[of fm_str pre line post rel body rel'] n by simp
    next
      assume "\<forall>rel. add_related_skills_to_frontmatter content rel = ''---'' @ fm_str @ ''---'' @ body"
      then show ?thesis using c by simp
    qed
  qed
qed

section \<open>Pass B: where the new line goes\<close>

text \<open>
  Claim C5 promises the new line for every migrated document with an output-format line.
  The description of this skill holds the text \<^verbatim>\<open>  related-skills:\<close>; after Pass A its header
  has an output-format line, and the splice of Pass B returns the document unchanged,
  because its test for an earlier run looks for that text anywhere in the header.
\<close>

theorem splice_guard_counterexample:
  "migrate_skill None ''demo'' (Some described_marker_doc) False =
     Inr ((True, ''demo: Migrated''), Some described_marker_migrated)
   \<and> ''  output-format: code'' \<in> set (split_lines described_marker_migrated)
   \<and> add_related_skills_to_frontmatter described_marker_migrated ''test-master''
       = described_marker_migrated"
  by code_simp

text \<open>
  Claim C5, as amended. Let the document start with the marker, let its header text (up
  to the next occurrence of the marker) not hold the text \<^verbatim>\<open>  related-skills:\<close> yet, and
  let \<open>line\<close> be a line of the header text, with the lines \<open>pre\<close> before it and \<open>post\<close>
  after it. If \<open>line\<close> is the first line that, stripped, starts with
  \<^verbatim>\<open>output-format:\<close>, or if no line does and \<open>line\<close> is the last line that starts with two
  spaces and holds a colon, then the splice returns the document with the one line
  \<^verbatim>\<open>  related-skills: \<close> and the value put right after \<open>line\<close>, and with every other line
  and the body as they were.
\<close>

theorem splice_after_output_format:
  assumes "content = ''---'' @ fm_str @ ''---'' @ body"
    and "\<not> sublist ''---'' (fm_str @ ''--'')"
    and "\<not> str_in ''  related-skills:'' fm_str"
    and "split_lines fm_str = pre @ line # post"
    and "(list_all (\<lambda>l. \<not> output_format_line l) pre \<and> output_format_line line)
       \<or> (list_all (\<lambda>l. \<not> output_format_line l) (pre @ line # post)
            \<and> metadata_field_line line \<and> list_all (\<lambda>l. \<not> metadata_field_line l) post)"
  shows "add_related_skills_to_frontmatter content related_skills =
           ''---'' @ join_lines (pre @ [line, ''  related-skills: '' @ related_skills] @ post)
             @ ''---'' @ body"
proof -
  have "\<not> sublist ''---'' ''--''"
    by code_simp
  then have s: "str_split_max content ''---'' 2 = [[], fm_str, body]"
    using split_content[of content "[]" fm_str body] assms(1,2) by simp
  from assms(5) show ?thesis
  proof
    assume "list_all (\<lambda>l. \<not> output_format_line l) pre \<and> output_format_line line"
    then show ?thesis
      using add_related_after_output_format[OF s assms(3,4)] by simp
  next
    assume "list_all (\<lambda>l. \<not> output_format_line l) (pre @ line # post)
            \<and> metadata_field_line line \<and> list_all (\<lambda>l. \<not> metadata_field_line l) post"
    then show ?thesis
      using add_related_after_last_field[OF s assms(3,4)] by simp
  qed
qed

theorem splice_after_output_format_witness:
  \<open>add_related_skills_to_frontmatter migrated_doc ''test-master'' =
     ''---\<newline>name: demo\<newline>description: A demo skill\<newline>license: MIT\<newline>metadata:\<newline>  author: https://github.com/Jeffallan\<newline>  version: "1.0.0"\<newline>  domain: unknown\<newline>  triggers: a\<newline>  output-format: code\<newline>  related-skills: test-master\<newline>---\<newline>body\<newline>''\<close>
proof -
  have 1: "migrated_doc = ''---'' @ migrated_header @ ''---'' @ ''\<newline>body\<newline>''"
    by (simp add: migrated_doc_def migrated_header_def)
  have 2: "\<not> sublist ''---'' (migrated_header @ ''--'')"
    by code_simp
  have 3: "\<not> str_in ''  related-skills:'' migrated_header"
    by code_simp
  have 4: \<open>split_lines migrated_header =
      ['''', ''name: demo'', ''description: A demo skill'', ''license: MIT'', ''metadata:'',
       ''  author: https://github.com/Jeffallan'', ''  version: "1.0.0"'', ''  domain: unknown'',
       ''  triggers: a''] @ ''  output-format: code'' # ['''']\<close>
    by code_simp
  have 5: \<open>list_all (\<lambda>l. \<not> output_format_line l)
      ['''', ''name: demo'', ''description: A demo skill'', ''license: MIT'', ''metadata:'',
       ''  author: https://github.com/Jeffallan'', ''  version: "1.0.0"'', ''  domain: unknown'',
       ''  triggers: a'']\<close>
    by code_simp
  have 6: "output_format_line ''  output-format: code''"
    by code_simp
  show ?thesis
    using splice_after_output_format[OF 1 2 3 4, of "''test-master''"] 5 6
    by (simp add: join_lines_def newline_def)
qed

section \<open>Pass B: an empty value\<close>




section \<open>Pass B: a second run\<close>

lemma parse_frontmatter_prefix:
  "parse_frontmatter HAS_PYYAML content = Inr (Some fm, body) \<Longrightarrow> prefix ''---'' content"
  by (simp add: parse_frontmatter_cases split: if_splits)

lemma related_run_file:
  assumes "migrate_related_skills HAS_PYYAML skill_name skill_md valid_dirs dry_run = Inr (result, skill_md')"
  shows "skill_md' = skill_md
       \<or> (\<exists>content rel. prefix ''---'' content
             \<and> skill_md' = Some (add_related_skills_to_frontmatter content rel))"
proof (cases skill_md)
  case None
  then show ?thesis
    using assms by (auto simp: migrate_related_skills_def)
next
  case (Some content)
  show ?thesis
  proof (cases "parse_frontmatter HAS_PYYAML content")
    case (Inl e)
    then show ?thesis
      using assms Some by (simp add: migrate_related_skills_def)
  next
    case (Inr p)
    obtain fmo body where p: "p = (fmo, body)" by (cases p)
    show ?thesis
    proof (cases fmo)
      case None
      then show ?thesis
        using assms Some Inr p by (auto simp: migrate_related_skills_def)
    next
      case (Some fm)
      then have "prefix ''---'' content"
        using Inr p parse_frontmatter_prefix by simp
      then show ?thesis
        using assms \<open>skill_md = Some content\<close> Inr p Some
        by (auto simp: migrate_related_skills_def Let_def split: if_splits)
    qed
  qed
qed

lemma related_run_fixed:
  assumes "\<And>rel. add_related_skills_to_frontmatter content rel = content"
  shows "file_after (Some content)
           (migrate_related_skills HAS_PYYAML skill_name (Some content) valid_dirs dry_run) = Some content"
  using assms
  by (simp add: migrate_related_skills_def file_after_def Let_def
      split: sum.splits option.splits prod.splits)

lemma related_second_run:
  assumes "migrate_related_skills HAS_PYYAML skill_name skill_md valid_dirs dry_run = Inr (result, skill_md')"
  shows "file_after skill_md'
           (migrate_related_skills HAS_PYYAML skill_name skill_md' valid_dirs dry_run) = skill_md'"
  using related_run_file[OF assms]
proof (elim disjE exE conjE)
  assume "skill_md' = skill_md"
  then show ?thesis
    using assms by (simp add: file_after_def)
next
  fix content rel
  assume "prefix ''---'' content" "skill_md' = Some (add_related_skills_to_frontmatter content rel)"
  then show ?thesis
    using related_run_fixed[of "add_related_skills_to_frontmatter content rel"] add_related_twice
    by simp
qed

lemma pass_B_twice:
  "pass_B HAS_PYYAML dry_run valid_dirs (pass_B HAS_PYYAML dry_run valid_dirs skill_dirs)
     = pass_B HAS_PYYAML dry_run valid_dirs skill_dirs"
proof (induction skill_dirs)
  case Nil
  then show ?case by simp
next
  case (Cons d skill_dirs)
  obtain skill_name skill_md where d: "d = (skill_name, skill_md)" by (cases d)
  show ?case
  proof (cases "migrate_related_skills HAS_PYYAML skill_name skill_md valid_dirs dry_run")
    case (Inl e)
    then show ?thesis by (simp add: d)
  next
    case (Inr o1)
    obtain result skill_md' where o1: "o1 = (result, skill_md')" by (cases o1)
    have "file_after skill_md'
           (migrate_related_skills HAS_PYYAML skill_name skill_md' valid_dirs dry_run) = skill_md'"
      using related_second_run Inr o1 by simp
    then show ?thesis
      using Inr o1 Cons.IH by (simp add: d file_after_def split: sum.splits prod.splits)
  qed
qed

text \<open>
  Claim C9. A run of Pass B on a skill that follows a completed run leaves the file as
  the first run left it, whether it returns or raises; a header whose parsed metadata
  group has the key \<^verbatim>\<open>related-skills\<close> is skipped, with the message that says so and
  without a write; and over the skill directories a second pass changes no file.
\<close>

theorem related_skills_pass_idempotent:
  "(migrate_related_skills HAS_PYYAML skill_name skill_md valid_dirs dry_run = Inr (result, skill_md') \<longrightarrow>
      file_after skill_md'
        (migrate_related_skills HAS_PYYAML skill_name skill_md' valid_dirs dry_run) = skill_md')
   \<and> (parse_frontmatter HAS_PYYAML content = Inr (Some fm, body)
        \<and> fm ''metadata'' = Some (Dict metadata) \<and> ''related-skills'' \<in> fst ` set metadata \<longrightarrow>
        migrate_related_skills HAS_PYYAML skill_name (Some content) valid_dirs dry_run =
          Inr ((True, skill_name @ '': Already has related-skills (skipped)''), Some content))
   \<and> pass_B HAS_PYYAML dry_run valid_dirs (pass_B HAS_PYYAML dry_run valid_dirs skill_dirs)
       = pass_B HAS_PYYAML dry_run valid_dirs skill_dirs"
  using related_second_run pass_B_twice
  by (auto simp: migrate_related_skills_def)

theorem related_skills_pass_idempotent_witness:
  "file_after (Some related_doc)
     (migrate_related_skills None ''demo'' (Some related_doc) {} False) = Some related_doc
   \<and> migrate_related_skills (Some reader_with_related) ''demo'' (Some related_doc) {} False =
       Inr ((True, ''demo: Already has related-skills (skipped)''), Some related_doc)"
proof -
  have 1: "migrate_related_skills None ''demo'' (Some migrated_doc) {} False =
             Inr ((True, ''demo: Added related-skills''), Some related_doc)"
    by code_simp
  have 2: "parse_frontmatter (Some reader_with_related) related_doc =
      Inr (Some [''name'' \<mapsto> Str ''demo'',
                 ''metadata'' \<mapsto> Dict [(''triggers'', ''a''), (''related-skills'', [])]],
           ''\<newline>body\<newline>'')"
    by (simp add: parse_frontmatter_cases related_doc_def reader_with_related_def)
  show ?thesis
    using related_skills_pass_idempotent[of None "''demo''" "Some migrated_doc" "{}" False
        "(True, ''demo: Added related-skills'')" "Some related_doc"] 1
      related_skills_pass_idempotent[of "Some reader_with_related" "''demo''" None "{}" False
        "(False, [])" None related_doc
        "[''name'' \<mapsto> Str ''demo'',
          ''metadata'' \<mapsto> Dict [(''triggers'', ''a''), (''related-skills'', [])]]"
        "''\<newline>body\<newline>''" "[(''triggers'', ''a''), (''related-skills'', [])]"] 2
    by simp
qed

section \<open>Pass A: what the rebuilt header is made of\<close>

lemma hexdigit_mem: "hexdigit n \<in> set ''0123456789abcdef''"
proof -
  have "n mod 16 < length ''0123456789abcdef''" by simp
  then show ?thesis unfolding hexdigit_def by (rule nth_mem)
qed

lemma hexdigit_not_dash: "hexdigit n \<noteq> CHR ''-''"
  using hexdigit_mem[of n] by auto

lemma hexdigit_not_newline: "hexdigit n \<noteq> newline"
  using hexdigit_mem[of n] by (auto simp: newline_def)

lemma repr_char_dash:
  "quote = CHR 0x27 \<or> quote = CHR 0x22 \<Longrightarrow> repr_char quote CHR ''-'' = ''-''"
  by (auto simp: repr_char_def backslash_def isprintable_def)

lemma repr_char_other:
  "c \<noteq> CHR ''-'' \<Longrightarrow> repr_char quote c \<noteq> [] \<and> CHR ''-'' \<notin> set (repr_char quote c)"
  by (auto simp: repr_char_def backslash_def hexdigit_not_dash hexdigit_not_dash[THEN not_sym])

lemma repr_char_no_newline:
  "quote = CHR 0x27 \<or> quote = CHR 0x22 \<Longrightarrow> newline \<notin> set (repr_char quote c)"
  by (auto simp: repr_char_def backslash_def newline_def isprintable_def
      hexdigit_not_newline[unfolded newline_def]
      hexdigit_not_newline[unfolded newline_def, THEN not_sym])

lemma escaped_prefix_dashes:
  assumes d: "f CHR ''-'' = ''-''"
    and o: "\<And>c. c \<noteq> CHR ''-'' \<Longrightarrow> f c \<noteq> [] \<and> CHR ''-'' \<notin> set (f c)"
  shows "set ds \<subseteq> {CHR ''-''} \<Longrightarrow> prefix ds (concat (map f x)) = prefix ds x"
proof (induction x arbitrary: ds)
  case Nil
  then show ?case by simp
next
  case (Cons c t)
  show ?case
  proof (cases ds)
    case Nil
    then show ?thesis by simp
  next
    case (Cons e ds')
    then have e: "e = CHR ''-''" and ds': "set ds' \<subseteq> {CHR ''-''}"
      using Cons.prems by auto
    show ?thesis
    proof (cases "c = CHR ''-''")
      case True
      then show ?thesis
        using Cons.IH[OF ds'] d by (simp add: Cons e)
    next
      case False
      obtain m ms where m: "f c = m # ms" "m \<noteq> CHR ''-''"
        using o[OF False] by (cases "f c") auto
      then show ?thesis
        using False by (simp add: Cons e)
    qed
  qed
qed

lemma escaped_no_marker:
  assumes d: "f CHR ''-'' = ''-''"
    and o: "\<And>c. c \<noteq> CHR ''-'' \<Longrightarrow> f c \<noteq> [] \<and> CHR ''-'' \<notin> set (f c)"
  shows "sublist ''---'' (concat (map f x)) \<Longrightarrow> sublist ''---'' x"
proof (induction x)
  case Nil
  then show ?case by simp
next
  case (Cons c t)
  show ?case
  proof (cases "c = CHR ''-''")
    case True
    have "prefix ''---'' (CHR ''-'' # concat (map f t)) = prefix ''---'' (CHR ''-'' # t)"
      using escaped_prefix_dashes[of f "''--''" t] d o by simp
    then show ?thesis
      using Cons True d by (auto simp: sublist_Cons_right)
  next
    case False
    obtain bm l where m: "f c = bm @ [l]"
      using o[OF False] by (cases "f c" rule: rev_cases) auto
    have l: "l \<notin> set ''---''" and bm: "CHR ''-'' \<notin> set bm"
      using o[OF False] m by auto
    have "sublist ''---'' (bm @ l # concat (map f t))"
      using Cons.prems m by simp
    then have "sublist ''---'' bm \<or> sublist ''---'' (concat (map f t))"
      using sublist_sep_char[OF l] by blast
    moreover have "\<not> sublist ''---'' bm"
      using bm set_mono_sublist[of "''---''" bm] by auto
    ultimately show ?thesis
      using Cons.IH by (auto simp: sublist_Cons_right)
  qed
qed

lemma py_repr_plain:
  assumes "\<not> sublist ''---'' x"
  shows "plain (py_repr x)"
proof -
  define quote where "quote = (if CHR 0x27 \<in> set x \<and> CHR 0x22 \<notin> set x then CHR 0x22 else CHR 0x27)"
  have q: "quote = CHR 0x27 \<or> quote = CHR 0x22"
    by (simp add: quote_def)
  have r: "py_repr x = [] @ quote # (concat (map (repr_char quote) x) @ quote # [])"
    by (simp add: py_repr_def quote_def Let_def)
  have qm: "quote \<notin> set ''---''"
    using q by auto
  have e: "\<not> sublist ''---'' (concat (map (repr_char quote) x))"
    using escaped_no_marker[of "repr_char quote" x] repr_char_dash[OF q] repr_char_other assms
    by blast
  have "\<not> sublist ''---'' (concat (map (repr_char quote) x) @ quote # [])"
    using sublist_sep_char[OF qm, of "concat (map (repr_char quote) x)" "[]"] e by simp
  then have 1: "\<not> sublist ''---'' (py_repr x)"
    unfolding r using sublist_sep_char[OF qm, of "[]"] by simp
  have 2: "newline \<notin> set (py_repr x)"
    using q repr_char_no_newline[OF q] by (auto simp: r newline_def)
  show ?thesis
    using 1 2 by (simp add: plain_def)
qed

lemma plain_sep:
  "c \<noteq> CHR ''-'' \<Longrightarrow> c \<noteq> newline \<Longrightarrow> plain a \<Longrightarrow> plain b \<Longrightarrow> plain (a @ c # b)"
  using sublist_sep_char[of c "''---''" a b] by (auto simp: plain_def)

lemma plain_Nil [simp]: "plain []"
  by (simp add: plain_def)

lemma plain_sublist: "plain s \<Longrightarrow> sublist t s \<Longrightarrow> plain t"
  unfolding plain_def
  by (meson set_mono_sublist sublist_order.order_trans subsetD)

lemma str_join_comma_plain:
  "list_all plain xs \<Longrightarrow> plain (str_join '', '' xs)"
proof (induction xs)
  case Nil
  then show ?case by simp
next
  case (Cons x xs)
  show ?case
  proof (cases "xs = []")
    case True
    then show ?thesis using Cons.prems by simp
  next
    case False
    have r: "plain (str_join '', '' xs)" and x: "plain x"
      using Cons by auto
    have "plain ([] @ CHR '' '' # str_join '', '' xs)"
      by (rule plain_sep[OF _ _ plain_Nil r]) (auto simp: newline_def)
    then have s: "plain (CHR '' '' # str_join '', '' xs)"
      by simp
    have "plain (x @ CHR '','' # CHR '' '' # str_join '', '' xs)"
      by (rule plain_sep[OF _ _ x s]) (auto simp: newline_def)
    then show ?thesis
      using False by (simp add: str_join_Cons)
  qed
qed

lemma py_str_plain: "plain_val v \<Longrightarrow> plain (py_str v)"
proof (cases v)
  case (Str s)
  then show "plain_val v \<Longrightarrow> plain (py_str v)" by simp
next
  case (Seq xs)
  assume "plain_val v"
  then have "list_all plain (map py_repr xs)"
    using Seq py_repr_plain by (auto simp: list_all_iff plain_def)
  then have j: "plain (str_join '', '' (map py_repr xs))"
    by (rule str_join_comma_plain)
  have k: "plain (str_join '', '' (map py_repr xs) @ CHR '']'' # [])"
    by (rule plain_sep[OF _ _ j plain_Nil]) (auto simp: newline_def)
  have "plain ([] @ CHR ''['' # str_join '', '' (map py_repr xs) @ '']'')"
    by (rule plain_sep[OF _ _ plain_Nil]) (use k in \<open>auto simp: newline_def\<close>)
  then show "plain (py_str v)"
    using Seq by simp
next
  case (Dict kvs)
  then show "plain_val v \<Longrightarrow> plain (py_str v)" by simp
qed

lemma triggers_str_plain:
  "plain_val v \<Longrightarrow> plain (case v of Seq xs \<Rightarrow> str_join '', '' xs | _ \<Rightarrow> py_str v)"
  by (cases v) (auto simp: str_join_comma_plain)

lemma str_split_char_parts:
  "prefix (hd (str_split_char s c)) s
   \<and> (\<forall>l\<in>set (str_split_char s c). c \<notin> set l \<and> sublist l s)"
proof (induction s)
  case Nil
  then show ?case by simp
next
  case (Cons x xs)
  show ?case
  proof (cases "x = c")
    case True
    then show ?thesis
      using Cons by (auto simp: sublist_Cons_right)
  next
    case False
    obtain l ls where l: "str_split_char xs c = l # ls"
      by (cases "str_split_char xs c") auto
    have "prefix l xs" "c \<notin> set l" "\<forall>m\<in>set ls. c \<notin> set m \<and> sublist m xs"
      using Cons l by auto
    then show ?thesis
      using False l by (auto simp: sublist_Cons_right)
  qed
qed

lemma split_lines_plain:
  assumes "\<not> sublist ''---'' s"
  shows "list_all plain (split_lines s)"
  unfolding list_all_iff plain_def split_lines_def
  using str_split_char_parts[of s newline] assms
  by (meson sublist_order.order_trans)

lemma str_rstrip_prefix: "prefix (str_rstrip s) s"
proof -
  have "suffix (dropWhile isspace (rev s)) (rev s)"
    by (rule suffix_dropWhile)
  then obtain a where "rev s = a @ dropWhile isspace (rev s)"
    by (auto simp: suffix_def)
  then have "s = rev (dropWhile isspace (rev s)) @ rev a"
    by (metis rev_append rev_rev_ident)
  then show ?thesis
    unfolding str_rstrip_def by (metis prefixI)
qed

lemma str_strip_sublist: "sublist (str_strip s) s"
proof -
  have "sublist (str_rstrip (str_lstrip s)) (str_lstrip s)"
    using str_rstrip_prefix by blast
  moreover have "sublist (str_lstrip s) s"
    by (simp add: str_lstrip_def)
  ultimately show ?thesis
    unfolding str_strip_def by (rule sublist_order.order_trans)
qed

lemma str_strip_plain: "plain s \<Longrightarrow> plain (str_strip s)"
  using plain_sublist str_strip_sublist by blast

lemma str_lstrip_chars_plain: "plain s \<Longrightarrow> plain (str_lstrip_chars cs s)"
  using plain_sublist[of s] by (simp add: str_lstrip_chars_def)

lemma str_partition_plain:
  assumes "plain s" and "str_partition s sep = (a, m, b)"
  shows "plain a \<and> plain b"
proof (cases "str_find sep s")
  case None
  then show ?thesis
    using assms by (auto simp: str_partition_def)
next
  case (Some ab)
  then have "s = a @ sep @ b"
    using assms(2) str_find_SomeD[of sep s a b] by (cases ab) (auto simp: str_partition_def)
  then have "sublist a s" "sublist b s"
    by (metis sublist_append_rightI, metis append_assoc sublist_append_leftI)
  then show ?thesis
    using assms(1) plain_sublist by blast
qed

lemma flush_plain:
  "plain_state st \<Longrightarrow> flush st k = Some v \<Longrightarrow> plain_val v"
  by (auto simp: plain_state_def flush_def split: option.splits if_splits)

lemma parse_line_plain:
  assumes "plain_state st" and "plain line"
  shows "plain_state (parse_line st line)"
proof -
  have item: "plain (str_strip (str_lstrip_chars ''- '' (str_strip line)))"
    using assms(2) by (intro str_strip_plain str_lstrip_chars_plain)
  obtain a m b where p: "str_partition line '':'' = (a, m, b)"
    by (cases "str_partition line '':''") auto
  have ab: "plain (str_strip a)" "plain (str_strip b)"
    using str_partition_plain[OF assms(2) p] str_strip_plain by auto
  have fl: "\<And>k v. flush st k = Some v \<Longrightarrow> plain_val v"
    using flush_plain[OF assms(1)] by blast
  show ?thesis
    using assms(1) item ab fl p
    by (auto simp: parse_line_def plain_state_def Let_def split: option.splits if_splits)
qed

lemma parse_lines_plain:
  "plain_state st \<Longrightarrow> list_all plain ls \<Longrightarrow> plain_state (parse_lines st ls)"
  by (induction ls arbitrary: st) (auto simp: parse_line_plain)

lemma simple_parser_plain:
  assumes "\<not> sublist ''---'' yaml_str" and "simple_parser yaml_str k = Some v"
  shows "plain_val v"
proof -
  have "\<not> sublist ''---'' (str_strip yaml_str)"
    using assms(1) str_strip_sublist sublist_order.order_trans by blast
  then have "list_all plain (split_lines (str_strip yaml_str))"
    by (rule split_lines_plain)
  moreover have "plain_state \<lparr>frontmatter = Map.empty, current_key = None, current_list = None\<rparr>"
    by (simp add: plain_state_def)
  ultimately have "plain_state (parse_lines \<lparr>frontmatter = Map.empty, current_key = None, current_list = None\<rparr>
                      (split_lines (str_strip yaml_str)))"
    using parse_lines_plain by blast
  then show ?thesis
    using assms(2) flush_plain unfolding simple_parser_def by blast
qed

lemma dropWhile_append_keep:
  "b \<noteq> [] \<Longrightarrow> \<not> P (hd b) \<Longrightarrow> dropWhile P (a @ b) = dropWhile P a @ b"
  by (induction a) (auto simp: dropWhile_eq_Cons_conv hd_conv_nth neq_Nil_conv)

lemma str_rstrip_append:
  assumes "xs \<noteq> []" and "\<not> isspace (last xs)"
  shows "str_rstrip (xs @ ys) = xs @ str_rstrip ys"
proof -
  have "dropWhile isspace (rev ys @ rev xs) = dropWhile isspace (rev ys) @ rev xs"
    using assms by (intro dropWhile_append_keep) (auto simp: hd_rev)
  then show ?thesis
    by (simp add: str_rstrip_def)
qed

lemma str_rstrip_newline: "str_rstrip (s @ [newline]) = str_rstrip s"
  by (simp add: str_rstrip_def isspace_def whitespace_def newline_def)

lemma str_rstrip_set: "set (str_rstrip s) \<subseteq> set s"
  using str_rstrip_prefix[of s] set_mono_prefix by blast

lemma strip_block:
  assumes "A \<noteq> []" and "hd A \<noteq> []" and "\<not> isspace (hd (hd A))"
    and "P \<noteq> []" and "\<not> isspace (last P)"
    and "list_all (\<lambda>l. newline \<notin> set l) (A @ [P @ W])"
  shows "split_lines (str_strip (newline # join_lines (A @ [P @ W]) @ [newline]))
           = A @ [P @ str_rstrip W]"
proof -
  let ?T = "join_lines (A @ [P @ W])"
  have T: "?T = (join_lines A @ newline # P) @ W"
    using str_join_append[of A "[P @ W]" "[newline]"] assms(1) by (simp add: join_lines_def)
  obtain a A' where A: "A = a # A'" using assms(1) by (cases A) auto
  have "join_lines A = a @ (if A' = [] then [] else newline # join_lines A')"
    by (cases A') (auto simp: A join_lines_def)
  then have hdT: "?T \<noteq> [] \<and> hd ?T = hd (hd A)"
    using assms(2) unfolding T by (simp add: A)
  have l: "str_lstrip (newline # ?T @ [newline]) = ?T @ [newline]"
  proof -
    have "dropWhile isspace (?T @ [newline]) = ?T @ [newline]"
      using hdT assms(3) by (cases ?T) auto
    then show ?thesis
      by (simp add: str_lstrip_def isspace_def whitespace_def newline_def)
  qed
  have "str_strip (newline # ?T @ [newline]) = str_rstrip ?T"
    unfolding str_strip_def l by (rule str_rstrip_newline)
  also have "\<dots> = (join_lines A @ newline # P) @ str_rstrip W"
    unfolding T using assms(4,5) by (intro str_rstrip_append) auto
  also have "\<dots> = join_lines (A @ [P @ str_rstrip W])"
    using str_join_append[of A "[P @ str_rstrip W]" "[newline]"] assms(1) by (simp add: join_lines_def)
  finally have s: "str_strip (newline # ?T @ [newline]) = join_lines (A @ [P @ str_rstrip W])" .
  have "list_all (\<lambda>l. newline \<notin> set l) (A @ [P @ str_rstrip W])"
    using assms(6) str_rstrip_set[of W] by auto
  then show ?thesis
    unfolding s by (intro split_join_lines) auto
qed

text \<open>The fallback parser on lines that hold the bare key \<^verbatim>\<open>metadata:\<close> followed only by
  lines that start with a space.\<close>

lemma parse_lines_append:
  "parse_lines st (xs @ ys) = parse_lines (parse_lines st xs) ys"
  by (induction xs arbitrary: st) auto

lemma parse_line_metadata:
  "parse_line st ''metadata:'' =
     \<lparr>frontmatter = flush st, current_key = Some ''metadata'', current_list = Some []\<rparr>"
proof -
  have 1: "str_strip ''metadata:'' = ''metadata:''"
    by code_simp
  have 2: "str_partition ''metadata:'' '':'' = (''metadata'', '':'', [])"
    by code_simp
  have 3: "str_strip ''metadata'' = ''metadata''" "str_strip [] = []"
    by code_simp+
  have 4: "str_in '':'' ''metadata:''" "\<not> str_startswith ''metadata:'' '' ''"
    "\<not> str_startswith ''metadata:'' ''  - ''" "\<not> str_startswith ''metadata:'' ''    - ''"
    by code_simp+
  show ?thesis
    unfolding parse_line_def 1 2 using 3 4 by (simp add: Let_def)
qed

lemma parse_line_indented:
  assumes "in_metadata st" and "prefix '' '' line"
  shows "in_metadata (parse_line st line)"
  using assms
  by (auto simp: parse_line_def in_metadata_def str_startswith_def Let_def split: option.splits)

lemma parse_lines_indented:
  "in_metadata st \<Longrightarrow> list_all (prefix '' '') ls \<Longrightarrow> in_metadata (parse_lines st ls)"
  by (induction ls arbitrary: st) (auto simp: parse_line_indented)

lemma flush_in_metadata: "in_metadata st \<Longrightarrow> flush st ''metadata'' \<noteq> None"
  by (auto simp: in_metadata_def flush_def)

lemma parser_sees_metadata:
  assumes "split_lines (str_strip yaml_str) = xs @ ''metadata:'' # ys"
    and "list_all (prefix '' '') ys"
  shows "simple_parser yaml_str ''metadata'' \<noteq> None"
proof -
  let ?st = "parse_lines \<lparr>frontmatter = Map.empty, current_key = None, current_list = None\<rparr> xs"
  have "in_metadata (parse_line ?st ''metadata:'')"
    by (simp add: parse_line_metadata in_metadata_def)
  then have "in_metadata (parse_lines (parse_line ?st ''metadata:'') ys)"
    using assms(2) by (rule parse_lines_indented)
  then show ?thesis
    unfolding simple_parser_def assms(1) parse_lines_append
    by (simp add: flush_in_metadata)
qed

lemma build_lines_blocks:
  assumes \<open>fm ''name'' = Some name\<close> and \<open>fm ''description'' = Some desc\<close>
  shows "build_lines fm skill_name =
           Inr (''---'' # (top_lines fm name desc @ ''metadata:'' # meta_lines fm skill_name) @ [''---''])"
  unfolding build_lines_closed[OF assms] top_lines_def meta_lines_def by simp

lemma domain_plain:
  "plain (case SKILL_DOMAIN_MAP skill_name of Some d \<Rightarrow> d | None \<Rightarrow> ''unknown'')"
proof (cases "SKILL_DOMAIN_MAP skill_name")
  case None
  have "plain ''unknown''" by code_simp
  then show ?thesis using None by simp
next
  case (Some d)
  have "d \<in> set [''language'', ''backend'', ''frontend'', ''infrastructure'', ''api-architecture'',
      ''quality'', ''devops'', ''security'', ''data-ml'', ''platform'', ''specialized'', ''workflow'']"
    using map_of_SomeD[OF Some[unfolded SKILL_DOMAIN_MAP_def]] by auto
  moreover have "list_all plain [''language'', ''backend'', ''frontend'', ''infrastructure'', ''api-architecture'',
      ''quality'', ''devops'', ''security'', ''data-ml'', ''platform'', ''specialized'', ''workflow'']"
    by code_simp
  ultimately have "plain d"
    unfolding list_all_iff by blast
  then show ?thesis
    using Some by simp
qed

lemma keyed_plain:
  assumes "plain key" and "plain v"
  shows "plain (key @ CHR '' '' # v)"
  by (rule plain_sep[OF _ _ assms]) (auto simp: newline_def)

lemma opt_line_plain:
  assumes "plain key" and "\<And>v. x = Some v \<Longrightarrow> plain_val v"
  shows "list_all plain (opt_line (key @ '' '') x)"
  using assms keyed_plain[OF assms(1)] py_str_plain
  by (cases x) (auto simp: opt_line_def)

lemma top_lines_plain:
  assumes "\<And>k v. fm k = Some v \<Longrightarrow> plain_val v" and "plain_val name" and "plain_val desc"
  shows "list_all plain (top_lines fm name desc)"
proof -
  have k: "plain ''name:''" "plain ''description:''" "plain ''license: MIT''" "plain ''allowed-tools:''"
    by code_simp+
  have n: "plain (''name:'' @ CHR '' '' # py_str name)"
    using keyed_plain k(1) py_str_plain assms(2) by blast
  have d: "plain (''description:'' @ CHR '' '' # py_str desc)"
    using keyed_plain k(2) py_str_plain assms(3) by blast
  have pd: "plain (py_str desc)"
    using py_str_plain assms(3) by blast
  have "plain (py_str desc @ CHR 0x22 # [])"
    by (rule plain_sep[OF _ _ pd plain_Nil]) (auto simp: newline_def)
  then have pq: "plain (py_str desc @ [CHR 0x22])"
    by simp
  have "plain ([] @ CHR 0x22 # py_str desc @ [CHR 0x22])"
    by (rule plain_sep[OF _ _ plain_Nil pq]) (auto simp: newline_def)
  then have q: "plain (''description:'' @ CHR '' '' # CHR 0x22 # py_str desc @ [CHR 0x22])"
    using keyed_plain[OF k(2)] by simp
  have a: "list_all plain (opt_line (''allowed-tools:'' @ '' '') (fm ''allowed-tools''))"
    using opt_line_plain[OF k(4)] assms(1) by blast
  show ?thesis
    unfolding top_lines_def using n d q k(3) a by simp
qed

lemma meta_lines_plain:
  assumes "\<And>k v. fm k = Some v \<Longrightarrow> plain_val v"
  shows "list_all plain (meta_lines fm skill_name)"
proof -
  have k: \<open>plain ''  author: https://github.com/Jeffallan''\<close> \<open>plain ''  version: "1.0.0"''\<close>
    "plain ''  domain:''" "plain ''  triggers:''" "plain ''  role:''" "plain ''  scope:''"
    "plain ''  output-format:''"
    by code_simp+
  have d: "plain (''  domain:'' @ CHR '' '' #
             (case SKILL_DOMAIN_MAP skill_name of Some d \<Rightarrow> d | None \<Rightarrow> ''unknown''))"
    using keyed_plain[OF k(3) domain_plain] .
  have "plain (case fm ''triggers'' of None \<Rightarrow> [] | Some (Seq xs) \<Rightarrow> str_join '', '' xs | Some t \<Rightarrow> py_str t)"
    using triggers_str_plain[of "the (fm ''triggers'')"] assms[of "''triggers''"]
    by (cases "fm ''triggers''") (auto split: pyval.splits)
  then have t: "plain (''  triggers:'' @ CHR '' '' #
             (case fm ''triggers'' of None \<Rightarrow> [] | Some (Seq xs) \<Rightarrow> str_join '', '' xs | Some t \<Rightarrow> py_str t))"
    using keyed_plain[OF k(4)] by blast
  have o: "list_all plain (opt_line (''  role:'' @ '' '') (fm ''role''))"
    "list_all plain (opt_line (''  scope:'' @ '' '') (fm ''scope''))"
    "list_all plain (opt_line (''  output-format:'' @ '' '') (fm ''output-format''))"
    using opt_line_plain[OF k(5)] opt_line_plain[OF k(6)] opt_line_plain[OF k(7)] assms by blast+
  show ?thesis
    unfolding meta_lines_def using k(1,2) d t o by simp
qed

lemma indented_fieldI: "l = CHR '' '' # p @ CHR '':'' # w \<Longrightarrow> indented_field l"
  unfolding indented_field_def by blast

lemma opt_line_indented:
  "key = CHR '' '' # p @ CHR '':'' # w \<Longrightarrow> list_all indented_field (opt_line key x)"
  by (cases x) (auto simp: opt_line_def intro: indented_fieldI)

lemma meta_lines_indented: "list_all indented_field (meta_lines fm skill_name)"
proof -
  have 1: \<open>indented_field ''  author: https://github.com/Jeffallan''\<close>
    by (rule indented_fieldI[of _ "'' author''" "'' https://github.com/Jeffallan''"]) simp
  have 2: \<open>indented_field ''  version: "1.0.0"''\<close>
    by (rule indented_fieldI[of _ "'' version''" \<open>'' "1.0.0"''\<close>]) simp
  have 3: "\<And>v. indented_field (''  domain: '' @ v)"
    by (rule indented_fieldI[of _ "'' domain''"]) simp
  have 4: "\<And>v. indented_field (''  triggers: '' @ v)"
    by (rule indented_fieldI[of _ "'' triggers''"]) simp
  have 5: "list_all indented_field (opt_line ''  role: '' (fm ''role''))"
    by (rule opt_line_indented[of _ "'' role''" "'' ''"]) simp
  have 6: "list_all indented_field (opt_line ''  scope: '' (fm ''scope''))"
    by (rule opt_line_indented[of _ "'' scope''" "'' ''"]) simp
  have 7: "list_all indented_field (opt_line ''  output-format: '' (fm ''output-format''))"
    by (rule opt_line_indented[of _ "'' output-format''" "'' ''"]) simp
  show ?thesis
    unfolding meta_lines_def using 1 2 3 4 5 6 7 by simp
qed

lemma meta_lines_ne: "meta_lines fm skill_name \<noteq> []"
  by (simp add: meta_lines_def)

lemma join_lines_no_marker:
  "list_all plain ls \<Longrightarrow> \<not> sublist ''---'' (join_lines ls)"
proof (induction ls)
  case Nil
  then show ?case by (simp add: join_lines_def)
next
  case (Cons l ls)
  show ?case
  proof (cases "ls = []")
    case True
    then show ?thesis using Cons.prems by (simp add: join_lines_def plain_def)
  next
    case False
    have "newline \<notin> set ''---''" by (simp add: newline_def)
    then have "sublist ''---'' (l @ newline # join_lines ls)
                 = (sublist ''---'' l \<or> sublist ''---'' (join_lines ls))"
      by (rule sublist_sep_char)
    then show ?thesis
      using Cons False by (simp add: join_lines_def str_join_Cons plain_def)
  qed
qed

lemma indented_field_prefix: "indented_field l \<Longrightarrow> prefix '' '' l"
  by (auto simp: indented_field_def)

lemma rebuilt_is_skipped:
  assumes \<open>fm ''name'' = Some name\<close> and \<open>fm ''description'' = Some desc\<close>
    and vals: "\<And>k v. fm k = Some v \<Longrightarrow> plain_val v"
    and b: "build_new_frontmatter fm skill_name = Inr new_frontmatter"
  shows "migrate_skill None skill_name (Some (new_frontmatter @ body)) dry_run =
           Inr ((True, skill_name @ '': Already migrated (skipped)''), Some (new_frontmatter @ body))"
proof -
  let ?top = "top_lines fm name desc"
  let ?meta = "meta_lines fm skill_name"
  obtain M L where metaL: "?meta = M @ [L]"
    using meta_lines_ne[of fm skill_name] by (cases ?meta rule: rev_cases) auto
  have ind: "list_all indented_field M" "indented_field L"
    using meta_lines_indented[of fm skill_name] unfolding metaL by auto
  then obtain p w where L: "L = CHR '' '' # p @ CHR '':'' # w"
    by (auto simp: indented_field_def)
  define P where "P = CHR '' '' # p @ [CHR '':'']"
  define A where "A = ?top @ ''metadata:'' # M"
  have LP: "L = P @ w" by (simp add: L P_def)
  have I: "?top @ ''metadata:'' # ?meta = A @ [P @ w]"
    by (simp add: A_def metaL LP)
  have plains: "list_all plain (A @ [P @ w])"
  proof -
    have "plain ''metadata:''" by code_simp
    then show ?thesis
      unfolding I[symmetric]
      using top_lines_plain[of fm name desc] meta_lines_plain[of fm skill_name] vals assms(1,2)
      by simp
  qed
  have nf: "new_frontmatter = join_lines (''---'' # (A @ [P @ w]) @ [''---''])"
    using b build_lines_blocks[OF assms(1,2), of skill_name] I
    by (simp add: build_new_frontmatter_def)
  have "join_lines (''---'' # (A @ [P @ w]) @ [''---''])
          = ''---'' @ newline # join_lines ((A @ [P @ w]) @ [''---''])"
    by (simp add: join_lines_def str_join_Cons)
  also have "join_lines ((A @ [P @ w]) @ [''---'']) = join_lines (A @ [P @ w]) @ newline # ''---''"
    using str_join_append[of "A @ [P @ w]" "[''---'']" "[newline]"] by (simp add: join_lines_def)
  finally have nf': "new_frontmatter @ body
      = ''---'' @ (newline # join_lines (A @ [P @ w]) @ [newline]) @ ''---'' @ body"
    unfolding nf by simp
  let ?Y = "newline # join_lines (A @ [P @ w]) @ [newline]"
  have nm: "\<not> sublist ''---'' (?Y @ butlast ''---'')"
  proof -
    have n: "newline \<notin> set ''---''" by (simp add: newline_def)
    have 1: "\<not> sublist ''---'' (join_lines (A @ [P @ w]))"
      using plains by (rule join_lines_no_marker)
    have 2: "\<not> sublist ''---'' ''--''" by code_simp
    have "\<not> sublist ''---'' (join_lines (A @ [P @ w]) @ newline # ''--'')"
      using sublist_sep_char[OF n, of "join_lines (A @ [P @ w])" "''--''"] 1 2 by simp
    then have "\<not> sublist ''---'' ([] @ newline # join_lines (A @ [P @ w]) @ newline # ''--'')"
      using sublist_sep_char[OF n, of "[]" "join_lines (A @ [P @ w]) @ newline # ''--''"] by simp
    then show ?thesis by simp
  qed
  have f: "str_find ''---'' (?Y @ ''---'' @ body) = Some (?Y, body)"
    using nm by (intro str_find_first) auto
  have pf: "parse_frontmatter None (new_frontmatter @ body) = Inr (Some (simple_parser ?Y), body)"
    unfolding nf' parse_frontmatter_cases using f by simp
  have sl: "split_lines (str_strip ?Y) = A @ [P @ str_rstrip w]"
  proof (rule strip_block)
    show "A \<noteq> []" by (simp add: A_def)
    have h: "hd A = ''name: '' @ py_str name"
      by (simp add: A_def top_lines_def)
    show "hd A \<noteq> []" by (simp add: h)
    show "\<not> isspace (hd (hd A))"
      by (simp add: h isspace_def whitespace_def)
    show "P \<noteq> []" by (simp add: P_def)
    show "\<not> isspace (last P)"
      by (simp add: P_def isspace_def whitespace_def)
    show "list_all (\<lambda>l. newline \<notin> set l) (A @ [P @ w])"
      using plains by (auto simp: list_all_iff plain_def)
  qed
  have sl': "split_lines (str_strip ?Y) = ?top @ ''metadata:'' # (M @ [P @ str_rstrip w])"
    unfolding sl by (simp add: A_def)
  have "list_all (prefix '' '') (M @ [P @ str_rstrip w])"
    using ind(1) indented_field_prefix by (auto simp: list_all_iff P_def)
  then have "simple_parser ?Y ''metadata'' \<noteq> None"
    using parser_sees_metadata[OF sl'] by simp
  then show ?thesis
    using pf by (auto simp: migrate_skill_def)
qed

section \<open>Pass A: a second run without the structured reader\<close>

lemma find_required_None:
  "find (\<lambda>field. fm field = None) required_fields = None \<Longrightarrow>
   fm ''name'' \<noteq> None \<and> fm ''description'' \<noteq> None \<and> fm ''triggers'' \<noteq> None"
  by (auto simp: required_fields_def split: if_splits)

lemma fallback_parse:
  "(parse_frontmatter None content = Inr (None, content))
   \<or> (\<exists>yaml_str body. \<not> sublist ''---'' yaml_str
         \<and> parse_frontmatter None content = Inr (Some (simple_parser yaml_str), body))"
proof (cases "prefix ''---'' content")
  case False
  then show ?thesis by (simp add: parse_frontmatter_cases)
next
  case True
  show ?thesis
  proof (cases "str_find ''---'' (drop 3 content)")
    case None
    then show ?thesis using True by (simp add: parse_frontmatter_cases)
  next
    case (Some yb)
    obtain yaml_str body where yb: "yb = (yaml_str, body)" by (cases yb)
    have "\<not> sublist ''---'' (yaml_str @ butlast ''---'')"
      using str_find_first_conv[of "''---''" "drop 3 content" yaml_str body] Some yb by simp
    then have "\<not> sublist ''---'' yaml_str"
      by (metis sublist_order.order_trans sublist_append_rightI)
    then show ?thesis
      using True Some yb by (auto simp: parse_frontmatter_cases)
  qed
qed

text \<open>A run of Pass A without the structured reader always returns, and either leaves
  the file as it was, or has rebuilt the header from plain values and written it.\<close>

lemma fallback_run:
  "\<exists>result skill_md'.
      migrate_skill None skill_name skill_md dry_run = Inr (result, skill_md')
      \<and> ((skill_md' = skill_md \<and> result \<noteq> (True, skill_name @ '': Migrated''))
         \<or> (\<not> dry_run \<and> result = (True, skill_name @ '': Migrated'')
             \<and> (\<exists>fm name desc new_frontmatter body.
                   fm ''name'' = Some name \<and> fm ''description'' = Some desc
                   \<and> (\<forall>k v. fm k = Some v \<longrightarrow> plain_val v)
                   \<and> build_new_frontmatter fm skill_name = Inr new_frontmatter
                   \<and> skill_md' = Some (new_frontmatter @ body))))"
proof (cases skill_md)
  case None
  then show ?thesis by (simp add: migrate_skill_def)
next
  case (Some content)
  from fallback_parse[of content] show ?thesis
  proof (elim disjE exE conjE)
    assume "parse_frontmatter None content = Inr (None, content)"
    then show ?thesis using Some by (simp add: migrate_skill_def)
  next
    fix yaml_str body
    assume n: "\<not> sublist ''---'' yaml_str"
      and p: "parse_frontmatter None content = Inr (Some (simple_parser yaml_str), body)"
    let ?fm = "simple_parser yaml_str"
    have vals: "\<forall>k v. ?fm k = Some v \<longrightarrow> plain_val v"
      using simple_parser_plain[OF n] by blast
    show ?thesis
    proof (cases "?fm ''metadata'' \<noteq> None")
      case True
      then show ?thesis using Some p by (simp add: migrate_skill_def)
    next
      case nometa: False
      show ?thesis
      proof (cases "find (\<lambda>field. ?fm field = None) required_fields")
        case (Some field)
        then show ?thesis
          using \<open>skill_md = Some content\<close> p nometa by (simp add: migrate_skill_def)
      next
        case None
        then obtain name desc where nd: "?fm ''name'' = Some name" "?fm ''description'' = Some desc"
          using find_required_None[of ?fm] by auto
        obtain new_frontmatter where b: "build_new_frontmatter ?fm skill_name = Inr new_frontmatter"
          using build_lines_closed[OF nd, of skill_name] by (simp add: build_new_frontmatter_def)
        show ?thesis
        proof (cases dry_run)
          case True
          then show ?thesis
            using \<open>skill_md = Some content\<close> p nometa None b by (simp add: migrate_skill_def)
        next
          case False
          then have "migrate_skill None skill_name skill_md dry_run =
                       Inr ((True, skill_name @ '': Migrated''), Some (new_frontmatter @ body))"
            using \<open>skill_md = Some content\<close> p nometa None b by (simp add: migrate_skill_def)
          then show ?thesis
            using False nd vals b by blast
        qed
      qed
    qed
  qed
qed

lemma fallback_second_run:
  assumes "migrate_skill None skill_name skill_md dry_run = Inr (result, skill_md')"
  shows "\<exists>result'. migrate_skill None skill_name skill_md' dry_run = Inr (result', skill_md')
           \<and> (result = (True, skill_name @ '': Migrated'') \<longrightarrow>
                result' = (True, skill_name @ '': Already migrated (skipped)''))"
  using fallback_run[of skill_name skill_md dry_run] assms rebuilt_is_skipped
  by (elim exE conjE disjE) auto

lemma pass_A_twice:
  "pass_A None dry_run (pass_A None dry_run skill_dirs) = pass_A None dry_run skill_dirs"
proof (induction skill_dirs)
  case Nil
  then show ?case by simp
next
  case (Cons d skill_dirs)
  obtain skill_name skill_md where d: "d = (skill_name, skill_md)" by (cases d)
  obtain result skill_md' where r: "migrate_skill None skill_name skill_md dry_run = Inr (result, skill_md')"
    using fallback_run[of skill_name skill_md dry_run] by blast
  obtain result' where "migrate_skill None skill_name skill_md' dry_run = Inr (result', skill_md')"
    using fallback_second_run[OF r] by blast
  then show ?case
    using r Cons.IH by (simp add: d)
qed

section \<open>Pass A: idempotence\<close>

text \<open>
  Claim C1 promises that a second run changes no file. With the structured reader and
  the document \<open>escaped_doc\<close>, the first run migrates the document; the header it has
  written is cut at the marker inside the allowed-tools value on the second run, has
  name, description and triggers but no metadata key, and the second run migrates the
  document again, to other contents.
\<close>

theorem migrate_skill_second_run_counterexample:
  "migrate_skill (Some reader_example) ''demo'' (Some escaped_doc) False =
     Inr ((True, ''demo: Migrated''), Some rebuilt_once)
   \<and> migrate_skill (Some reader_example) ''demo'' (Some rebuilt_once) False =
       Inr ((True, ''demo: Migrated''), Some rebuilt_twice)
   \<and> rebuilt_twice \<noteq> rebuilt_once"
  by code_simp

text \<open>
  Claim C1, as amended. Without the structured reader, a run of Pass A on a skill
  returns, a second run returns too and leaves the file as the first run left it, and
  where the first run has migrated the document the second one skips it as already
  migrated; a second pass over the skill directories changes no file. With either
  reader, a document whose parsed header has the key \<^verbatim>\<open>metadata\<close> is skipped as already
  migrated and its file is not written.
\<close>

theorem migrate_skill_idempotent:
  "(\<exists>result skill_md' result'.
       migrate_skill None skill_name skill_md dry_run = Inr (result, skill_md')
       \<and> migrate_skill None skill_name skill_md' dry_run = Inr (result', skill_md')
       \<and> (result = (True, skill_name @ '': Migrated'') \<longrightarrow>
            result' = (True, skill_name @ '': Already migrated (skipped)'')))
   \<and> pass_A None dry_run (pass_A None dry_run skill_dirs) = pass_A None dry_run skill_dirs
   \<and> (parse_frontmatter HAS_PYYAML content = Inr (Some fm, body) \<and> fm ''metadata'' \<noteq> None \<longrightarrow>
        migrate_skill HAS_PYYAML skill_name (Some content) dry_run =
          Inr ((True, skill_name @ '': Already migrated (skipped)''), Some content))"
proof (intro conjI impI)
  obtain result skill_md' where r: "migrate_skill None skill_name skill_md dry_run = Inr (result, skill_md')"
    using fallback_run[of skill_name skill_md dry_run] by blast
  then show "\<exists>result skill_md' result'.
       migrate_skill None skill_name skill_md dry_run = Inr (result, skill_md')
       \<and> migrate_skill None skill_name skill_md' dry_run = Inr (result', skill_md')
       \<and> (result = (True, skill_name @ '': Migrated'') \<longrightarrow>
            result' = (True, skill_name @ '': Already migrated (skipped)''))"
    using fallback_second_run[OF r] by blast
  show "pass_A None dry_run (pass_A None dry_run skill_dirs) = pass_A None dry_run skill_dirs"
    by (rule pass_A_twice)
  assume "parse_frontmatter HAS_PYYAML content = Inr (Some fm, body) \<and> fm ''metadata'' \<noteq> None"
  then show "migrate_skill HAS_PYYAML skill_name (Some content) dry_run =
          Inr ((True, skill_name @ '': Already migrated (skipped)''), Some content)"
    by (auto simp: migrate_skill_def)
qed

theorem migrate_skill_idempotent_witness:
  "migrate_skill None ''demo'' (Some original_doc) False =
     Inr ((True, ''demo: Migrated''), Some migrated_doc)
   \<and> migrate_skill None ''demo'' (Some migrated_doc) False =
       Inr ((True, ''demo: Already migrated (skipped)''), Some migrated_doc)"
proof -
  have 1: "migrate_skill None ''demo'' (Some original_doc) False =
     Inr ((True, ''demo: Migrated''), Some migrated_doc)"
    by code_simp
  have 2: "parse_frontmatter None migrated_doc = Inr (Some (simple_parser migrated_header), ''\<newline>body\<newline>'')"
    by (simp add: parse_frontmatter_cases migrated_doc_def migrated_header_def)
  have 3: "simple_parser migrated_header ''metadata'' \<noteq> None"
    by code_simp
  show ?thesis
    using migrate_skill_idempotent[of "''demo''" "Some original_doc" False "[]" None migrated_doc
        "simple_parser migrated_header" "''\<newline>body\<newline>''"] 1 2 3
    by auto
qed

section \<open>The fallback parser and quoted scalars\<close>

text \<open>The structured reader is not part of the repository, so the equivalence of the two
  parsing strategies (claim C2) is not stated here. The fallback parser reads every
  scalar as the text that follows the colon, quote characters included.\<close>

lemma simple_parser_keeps_quotes:
  \<open>simple_parser ''\<newline>name: demo\<newline>description: "A demo"\<newline>'' ''description''
     = Some (Str ''"A demo"'')\<close>
  by code_simp

end
